theory Spec2Isabelle
  imports Complex_Main "HOL-Library.Sublist" "HOL-Library.AList" "HOL-Library.Log_Nat"
begin

section \<open>Grammar Scoring Engine: classification, scoring, metrics, feedback, recording\<close>

text \<open>
  A shallow embedding of \<^verbatim>\<open>Grammar Scoring Engine.py\<close>.

  Conventions of the model.
  \<^item> A Python \<^verbatim>\<open>str\<close> is a \<^typ>\<open>string\<close>: a list of code points below 256.
    \<^verbatim>\<open>str.lower\<close>, \<^verbatim>\<open>str.split\<close> and whitespace are those of Python on
    that range.
  \<^item> A Python \<^verbatim>\<open>dict\<close> is an association list in insertion order.
  \<^item> A Python \<^verbatim>\<open>float\<close> is a \<^verbatim>\<open>pyfloat\<close>: the exact rational value of a double, an
    infinity, or not-a-number; every float operation rounds its exact result to the
    nearest double, a tie going to the even significand. The two zeros are one value, and
    so are the integer 0 and the float 0.0.
  \<^item> The score is an exact rational: the floats the program computes from error counts
    are multiples of one half, far below \<open>2\<^sup>5\<^sup>3\<close>, so they are exact in the program too.
  \<^item> A raised exception is a value \<open>Inl e\<close> of a sum type.
  \<^item> The external collaborators (speech-to-text model, grammar tool, readability
    library, audio stream, clock, file system) are parameters.
\<close>

subsection \<open>Python strings\<close>

text \<open>\<^verbatim>\<open>sub in s\<close>: \<open>sub\<close> occurs in \<open>s\<close> as a contiguous substring.\<close>

fun str_contains :: "string \<Rightarrow> string \<Rightarrow> bool" where
  "str_contains sub [] = (sub = [])"
| "str_contains sub (c # cs) = (prefix sub (c # cs) \<or> str_contains sub cs)"

text \<open>\<^verbatim>\<open>str.lower\<close> on code points below 256: \<open>A\<close>..\<open>Z\<close> and the Latin-1 capitals
  \<open>0xC0\<close>..\<open>0xDE\<close> (without the multiplication sign \<open>0xD7\<close>) move up by 32.\<close>

definition lower_char :: "char \<Rightarrow> char" where
  "lower_char c =
     (let n = (of_char c :: nat)
      in if (65 \<le> n \<and> n \<le> 90) \<or> (192 \<le> n \<and> n \<le> 222 \<and> n \<noteq> 215)
         then char_of (n + 32) else c)"

definition lower :: "string \<Rightarrow> string" where
  "lower s = map lower_char s"

text \<open>Whitespace of \<^verbatim>\<open>str.split()\<close> below 256: \<open>0x09\<close>..\<open>0x0D\<close>, \<open>0x1C\<close>..\<open>0x20\<close>,
  \<open>0x85\<close> and \<open>0xA0\<close>.\<close>

definition is_space :: "char \<Rightarrow> bool" where
  "is_space c =
     (let n = (of_char c :: nat)
      in (9 \<le> n \<and> n \<le> 13) \<or> (28 \<le> n \<and> n \<le> 32) \<or> n = 133 \<or> n = 160)"

text \<open>\<^verbatim>\<open>s.split()\<close>: the maximal runs of non-whitespace, in order. The first argument
  is the word being read.\<close>

fun split_acc :: "string \<Rightarrow> string \<Rightarrow> string list" where
  "split_acc w [] = (if w = [] then [] else [w])"
| "split_acc w (c # cs) =
     (if is_space c then (if w = [] then split_acc [] cs else w # split_acc [] cs)
      else split_acc (w @ [c]) cs)"

definition split :: "string \<Rightarrow> string list" where
  "split s = split_acc [] s"

text \<open>\<^verbatim>\<open>s.count(sub)\<close>: the occurrences found scanning from the left, each search
  resuming after the end of the previous occurrence; an empty \<open>sub\<close> is found
  \<open>len(s) + 1\<close> times.\<close>

fun count_scan :: "string \<Rightarrow> string \<Rightarrow> nat" where
  "count_scan sub [] = 0"
| "count_scan sub (c # cs) =
     (if prefix sub (c # cs) then Suc (count_scan sub (drop (length sub - 1) cs))
      else count_scan sub cs)"

definition str_count :: "string \<Rightarrow> string \<Rightarrow> nat" where
  "str_count s sub = (if sub = [] then length s + 1 else count_scan sub s)"

text \<open>\<^verbatim>\<open>sep.join(xs)\<close>.\<close>

fun join :: "string \<Rightarrow> string list \<Rightarrow> string" where
  "join sep [] = []"
| "join sep [x] = x"
| "join sep (x # y # ys) = x @ sep @ join sep (y # ys)"

text \<open>\<^verbatim>\<open>list(dict.fromkeys(xs))\<close>: the keys in insertion order, so every element once, at
  its first occurrence. The first argument holds the keys inserted so far.\<close>

fun fromkeys_acc :: "'a list \<Rightarrow> 'a list \<Rightarrow> 'a list" where
  "fromkeys_acc acc [] = acc"
| "fromkeys_acc acc (x # xs) =
     (if x \<in> set acc then fromkeys_acc acc xs else fromkeys_acc (acc @ [x]) xs)"

definition fromkeys :: "'a list \<Rightarrow> 'a list" where
  "fromkeys xs = fromkeys_acc [] xs"

subsection \<open>Python dictionaries and errors\<close>

text \<open>The exceptions the program can meet: its own, and those the external libraries
  raise (carrying their text).\<close>

datatype py_error = KeyError string | ZeroDivisionError | TypeError | ExternalError string

type_synonym ('k, 'v) dict = "('k \<times> 'v) list"

text \<open>\<^verbatim>\<open>d[k]\<close> raises on a missing key; \<^verbatim>\<open>d.get(k, dflt)\<close> does not.\<close>

definition dict_index :: "(string, 'v) dict \<Rightarrow> string \<Rightarrow> py_error + 'v" where
  "dict_index d k = (case map_of d k of None \<Rightarrow> Inl (KeyError k) | Some v \<Rightarrow> Inr v)"

definition dict_get :: "('k, 'v) dict \<Rightarrow> 'k \<Rightarrow> 'v \<Rightarrow> 'v" where
  "dict_get d k dflt = (case map_of d k of None \<Rightarrow> dflt | Some v \<Rightarrow> v)"

subsection \<open>Python floats\<close>

text \<open>A double: a finite value, an infinity or not-a-number.\<close>

datatype pyfloat = Finite rat | PosInf | NegInf | NaN

text \<open>The nearest integer, a tie going to the even one.\<close>

definition round_half_even :: "rat \<Rightarrow> int" where
  "round_half_even x =
     (let f = \<lfloor>x\<rfloor>; r = x - of_int f
      in if r < 1 / 2 then f
         else if 1 / 2 < r then f + 1
         else if even f then f else f + 1)"

text \<open>The binary exponent of a positive rational \<open>x\<close>: the \<open>k\<close> with
  \<open>2\<^sup>k \<le> x < 2\<^sup>k\<^sup>+\<^sup>1\<close>, found from the bit lengths of numerator and denominator.\<close>

definition floor_log2 :: "rat \<Rightarrow> int" where
  "floor_log2 x =
     (let (a, b) = quotient_of x;
          k = bitlen a - bitlen b
      in if 2 powi k \<le> x then k else k - 1)"

text \<open>Rounding an exact result to a double (IEEE 754 binary64, round to nearest, ties to
  even): around \<open>x\<close> the doubles are the multiples of \<open>2\<^sup>e\<^sup>-\<^sup>5\<^sup>2\<close>, with \<open>e\<close> the binary
  exponent of \<open>x\<close> and at least \<open>-1022\<close> (below it, the subnormal doubles are the
  multiples of \<open>2\<^sup>-\<^sup>1\<^sup>0\<^sup>7\<^sup>4\<close>); a result of magnitude \<open>2\<^sup>1\<^sup>0\<^sup>2\<^sup>4\<close> or more is an infinity.\<close>

definition round_to_double :: "rat \<Rightarrow> pyfloat" where
  "round_to_double x =
     (if x = 0 then Finite 0
      else (let quantum = 2 powi (max (floor_log2 \<bar>x\<bar>) (- 1022) - 52);
                y = of_int (round_half_even (x / quantum)) * quantum
            in if 2 ^ 1024 \<le> \<bar>y\<bar> then (if 0 < x then PosInf else NegInf) else Finite y))"

text \<open>\<^verbatim>\<open>float(n)\<close> of an integer, as the mixed operations \<^verbatim>\<open>float / int\<close> and
  \<^verbatim>\<open>int / float\<close> convert it. (Python raises on an integer of \<open>2\<^sup>1\<^sup>0\<^sup>2\<^sup>4\<close> or more; a word
  count is below \<open>2\<^sup>6\<^sup>3\<close>.)\<close>

definition int_to_float :: "int \<Rightarrow> pyfloat" where
  "int_to_float n = round_to_double (of_int n)"

text \<open>\<^verbatim>\<open>a < b\<close> on floats: false whenever not-a-number takes part.\<close>

fun float_less :: "pyfloat \<Rightarrow> pyfloat \<Rightarrow> bool" where
  "float_less NaN b = False"
| "float_less a NaN = False"
| "float_less (Finite x) (Finite y) = (x < y)"
| "float_less (Finite x) PosInf = True"
| "float_less (Finite x) NegInf = False"
| "float_less PosInf b = False"
| "float_less NegInf NegInf = False"
| "float_less NegInf b = True"

text \<open>\<^verbatim>\<open>a / b\<close> on floats: Python raises on a zero divisor, whatever the dividend;
  otherwise the quotient is the IEEE one, rounded, overflowing to an infinity.\<close>

fun truediv :: "pyfloat \<Rightarrow> pyfloat \<Rightarrow> py_error + pyfloat" where
  "truediv a (Finite y) =
     (if y = 0 then Inl ZeroDivisionError
      else Inr (case a of
                  Finite x \<Rightarrow> round_to_double (x / y)
                | PosInf \<Rightarrow> if 0 < y then PosInf else NegInf
                | NegInf \<Rightarrow> if 0 < y then NegInf else PosInf
                | NaN \<Rightarrow> NaN))"
| "truediv (Finite x) PosInf = Inr (Finite 0)"
| "truediv (Finite x) NegInf = Inr (Finite 0)"
| "truediv a b = Inr NaN"

text \<open>\<^verbatim>\<open>a - b\<close> on finite floats given by their values.\<close>

definition float_sub :: "rat \<Rightarrow> rat \<Rightarrow> pyfloat" where
  "float_sub a b = round_to_double (a - b)"

text \<open>\<^verbatim>\<open>round(x, ndigits)\<close> on a float: the exact value of \<open>x\<close> is rounded to the nearest
  multiple of \<open>10\<^sup>-\<^sup>n\<close>, a tie going to the even one, and the decimal is converted back
  to the nearest double; infinities and not-a-number round to themselves.\<close>

definition py_round :: "pyfloat \<Rightarrow> nat \<Rightarrow> pyfloat" where
  "py_round x ndigits =
     (case x of
        Finite q \<Rightarrow> round_to_double (of_int (round_half_even (q * 10 ^ ndigits)) / 10 ^ ndigits)
      | _ \<Rightarrow> x)"

subsection \<open>Global constants\<close>

definition ERROR_WEIGHTS :: "(string, rat) dict" where
  "ERROR_WEIGHTS =
     [(''GRAMMAR'', 3), (''TYPOS'', 2), (''PUNCTUATION'', 1), (''STYLE'', 3 / 2)]"

definition FILLER_WORDS :: "string list" where
  "FILLER_WORDS = [''um'', ''uh'', ''like'', ''you know'', ''ah'', ''er'']"

subsection \<open>The error classifier\<close>

text \<open>A match object of the grammar tool.\<close>

record issue_match =
  ruleId :: string
  message :: string
  match_context :: string
  replacements :: "string list"
  offset :: nat
  errorLength :: nat

definition classify_error :: "issue_match \<Rightarrow> string" where
  "classify_error match =
     (let rule_id = ruleId match;
          msg = lower (message match)
      in if rule_id = ''MORFOLOGIK_RULE_EN_US'' \<or> str_contains ''spelling'' msg
           then ''TYPOS''
         else if str_contains ''punctuation'' msg
           then ''PUNCTUATION''
         else if str_contains ''style'' msg \<or> str_contains ''readability'' msg
           then ''STYLE''
         else ''GRAMMAR'')"

subsection \<open>The grammar check and the scorer\<close>

text \<open>\<^verbatim>\<open>error_breakdown[category] += 1\<close>: reads the key (raising when it is missing) and
  stores the successor in place.\<close>

definition dict_incr :: "(string, nat) dict \<Rightarrow> string \<Rightarrow> py_error + (string, nat) dict" where
  "dict_incr d k =
     (case dict_index d k of
        Inl e \<Rightarrow> Inl e
      | Inr v \<Rightarrow> Inr (AList.update k (v + 1) d))"

definition newline :: string where
  "newline = [char_of (10 :: nat)]"

text \<open>The formatted detail of one match, as the loop body of \<^verbatim>\<open>check_grammar\<close> builds it.\<close>

definition error_info :: "issue_match \<Rightarrow> string \<Rightarrow> string" where
  "error_info match category =
     (let suggestion = (case replacements match of
                          [] \<Rightarrow> ''No suggestion available''
                        | r # _ \<Rightarrow> r);
          explanation = ''This error occurs because: '' @ message match @
                        ''. Context: '' @ [CHR 0x27] @ match_context match @ [CHR 0x27] @ ''.''
      in ''Error: '' @ message match @ newline @
         ''Category: '' @ category @ newline @
         ''Context: '' @ [CHR 0x27] @ match_context match @ [CHR 0x27] @ newline @
         ''Suggested Correction: '' @ suggestion @ newline @
         ''Explanation: '' @ explanation @ newline @
         ''-----'')"

text \<open>The \<^verbatim>\<open>for match in matches\<close> loop, on the breakdown and the details so far.\<close>

fun check_loop ::
  "issue_match list \<Rightarrow> (string, nat) dict \<Rightarrow> string list \<Rightarrow>
   py_error + ((string, nat) dict \<times> string list)" where
  "check_loop [] error_breakdown error_details = Inr (error_breakdown, error_details)"
| "check_loop (match # rest) error_breakdown error_details =
     (let category = classify_error match
      in case dict_incr error_breakdown category of
           Inl e \<Rightarrow> Inl e
         | Inr error_breakdown' \<Rightarrow>
             check_loop rest error_breakdown' (error_details @ [error_info match category]))"

text \<open>\<^verbatim>\<open>sum(ERROR_WEIGHTS[cat] * count for cat, count in error_breakdown.items())\<close>,
  on the items still to add and the sum so far.\<close>

fun weighted_sum :: "(string, nat) dict \<Rightarrow> rat \<Rightarrow> py_error + rat" where
  "weighted_sum [] acc = Inr acc"
| "weighted_sum ((cat, count) # rest) acc =
     (case dict_index ERROR_WEIGHTS cat of
        Inl e \<Rightarrow> Inl e
      | Inr w \<Rightarrow> weighted_sum rest (acc + w * of_nat count))"

definition weighted_penalty :: "(string, nat) dict \<Rightarrow> py_error + rat" where
  "weighted_penalty error_breakdown = weighted_sum error_breakdown 0"

definition overall_score :: "(string, nat) dict \<Rightarrow> py_error + rat" where
  "overall_score error_breakdown =
     (case weighted_penalty error_breakdown of
        Inl e \<Rightarrow> Inl e
      | Inr p \<Rightarrow> Inr (max (100 - p) 0))"

definition initial_breakdown :: "(string, nat) dict" where
  "initial_breakdown = [(''GRAMMAR'', 0), (''TYPOS'', 0), (''PUNCTUATION'', 0), (''STYLE'', 0)]"

text \<open>\<^verbatim>\<open>check_grammar\<close> on the matches the grammar tool returned for the text.\<close>

definition check_matches ::
  "issue_match list \<Rightarrow> py_error + (rat \<times> string list \<times> (string, nat) dict \<times> nat)" where
  "check_matches matches =
     (case check_loop matches initial_breakdown [] of
        Inl e \<Rightarrow> Inl e
      | Inr (error_breakdown, error_details) \<Rightarrow>
          (case overall_score error_breakdown of
             Inl e \<Rightarrow> Inl e
           | Inr sc \<Rightarrow> Inr (sc, error_details, error_breakdown, length matches)))"

definition check_grammar ::
  "(string \<Rightarrow> issue_match list) \<Rightarrow> string \<Rightarrow>
   py_error + (rat \<times> string list \<times> (string, nat) dict \<times> nat)" where
  "check_grammar tool_check text = check_matches (tool_check text)"

text \<open>An error breakdown as \<^verbatim>\<open>check_grammar\<close> holds it: the four categories, in the
  order of the dictionary literal.\<close>

definition breakdown :: "nat \<Rightarrow> nat \<Rightarrow> nat \<Rightarrow> nat \<Rightarrow> (string, nat) dict" where
  "breakdown g t p s = [(''GRAMMAR'', g), (''TYPOS'', t), (''PUNCTUATION'', p), (''STYLE'', s)]"

subsection \<open>The metrics computer\<close>

record metrics =
  score :: rat
  word_count :: nat
  wpm :: pyfloat
  filler_count :: nat
  errors :: "(string, nat) dict"

text \<open>The speaking rate, line 80:
  \<^verbatim>\<open>round(word_count / (audio_duration / 60), 2) if audio_duration > 0 else 0\<close>.\<close>

definition words_per_minute :: "nat \<Rightarrow> pyfloat \<Rightarrow> py_error + pyfloat" where
  "words_per_minute wc audio_duration =
     (if float_less (int_to_float 0) audio_duration
      then (case truediv audio_duration (int_to_float 60) of
              Inl e \<Rightarrow> Inl e
            | Inr minutes \<Rightarrow>
                (case truediv (int_to_float (int wc)) minutes of
                   Inl e \<Rightarrow> Inl e
                 | Inr q \<Rightarrow> Inr (py_round q 2)))
      else Inr (int_to_float 0))"

definition compute_metrics ::
  "string \<Rightarrow> pyfloat \<Rightarrow> (string, nat) dict \<Rightarrow> rat \<Rightarrow> py_error + metrics" where
  "compute_metrics transcript audio_duration error_breakdown overall =
     (let words = split transcript;
          wc = length words
      in case words_per_minute wc audio_duration of
           Inl e \<Rightarrow> Inl e
         | Inr w \<Rightarrow>
             (let transcript_lower = lower transcript;
                  fc = sum_list (map (str_count transcript_lower) FILLER_WORDS)
              in Inr \<lparr>score = overall, word_count = wc, wpm = w, filler_count = fc,
                      errors = [(''GRAMMAR'', dict_get error_breakdown ''GRAMMAR'' 0),
                                (''TYPOS'', dict_get error_breakdown ''TYPOS'' 0),
                                (''PUNCTUATION'', dict_get error_breakdown ''PUNCTUATION'' 0)]\<rparr>))"

subsection \<open>The style analyser\<close>

text \<open>The readability library: three indices of a text.\<close>

record textstat =
  ts_flesch_reading_ease :: "string \<Rightarrow> rat"
  ts_flesch_kincaid_grade :: "string \<Rightarrow> rat"
  ts_gunning_fog :: "string \<Rightarrow> rat"

record style_analysis =
  flesch_reading_ease :: rat
  flesch_kincaid_grade :: rat
  gunning_fog :: rat
  style_comment :: string
  advanced_recommendations :: string

definition advanced_style_analysis :: "textstat \<Rightarrow> string \<Rightarrow> style_analysis" where
  "advanced_style_analysis lib text =
     (let fre = ts_flesch_reading_ease lib text;
          fk_grade = ts_flesch_kincaid_grade lib text;
          gunning = ts_gunning_fog lib text;
          comment =
            (if 60 < fre then ''The text is clear and easily understandable.''
             else if 40 < fre
               then ''The text is moderately complex; consider simplifying sentences for clarity.''
             else ''The text is hard to read; consider revising for improved clarity and tone.'');
          suggestions0 = [];
          suggestions1 =
            (if 10 < fk_grade
             then suggestions0 @ [''Simplify sentence structure to lower the reading grade level.'']
             else suggestions0);
          suggestions2 =
            (if 12 < gunning
             then suggestions1 @ [''Reduce vocabulary complexity to lower the Gunning Fog Index.'']
             else suggestions1);
          suggestions3 =
            (if suggestions2 = [] then suggestions2 @ [''Your writing style is effective.'']
             else suggestions2)
      in \<lparr>flesch_reading_ease = fre, flesch_kincaid_grade = fk_grade, gunning_fog = gunning,
          style_comment = comment, advanced_recommendations = join '' '' suggestions3\<rparr>)"

subsection \<open>The feedback generator\<close>

definition TYPOS_FEEDBACK :: string where
  "TYPOS_FEEDBACK =
     ''Review suggested corrections for typos and consider using a spell-checker.''"

definition GRAMMAR_FEEDBACK :: string where
  "GRAMMAR_FEEDBACK = ''Review grammar suggestions and study common grammatical patterns.''"

definition PUNCTUATION_FEEDBACK :: string where
  "PUNCTUATION_FEEDBACK = ''Review punctuation guidelines to improve sentence clarity.''"

definition STYLE_FEEDBACK :: string where
  "STYLE_FEEDBACK =
     ''Consider revising stylistically ambiguous sentences for better readability.''"

definition NO_FEEDBACK :: string where
  "NO_FEEDBACK = ''No additional contextual feedback available.''"

text \<open>The body of the \<^verbatim>\<open>for detail in error_details\<close> loop: four independent tests, each
  appending its suggestion.\<close>

definition feedback_step :: "string list \<Rightarrow> string \<Rightarrow> string list" where
  "feedback_step suggestions detail =
     (let s1 = (if str_contains ''Category: TYPOS'' detail
                then suggestions @ [TYPOS_FEEDBACK] else suggestions);
          s2 = (if str_contains ''Category: GRAMMAR'' detail
                then s1 @ [GRAMMAR_FEEDBACK] else s1);
          s3 = (if str_contains ''Category: PUNCTUATION'' detail
                then s2 @ [PUNCTUATION_FEEDBACK] else s2);
          s4 = (if str_contains ''Category: STYLE'' detail
                then s3 @ [STYLE_FEEDBACK] else s3)
      in s4)"

fun feedback_loop :: "string list \<Rightarrow> string list \<Rightarrow> string list" where
  "feedback_loop suggestions [] = suggestions"
| "feedback_loop suggestions (detail # rest) =
     feedback_loop (feedback_step suggestions detail) rest"

definition contextual_language_feedback :: "string \<Rightarrow> string list \<Rightarrow> string" where
  "contextual_language_feedback text error_details =
     (let suggestions = fromkeys (feedback_loop [] error_details)
      in if suggestions \<noteq> [] then join '' '' suggestions else NO_FEEDBACK)"

subsection \<open>The report builder\<close>

text \<open>How Python prints a number is left to the formatter: \<^verbatim>\<open>{n}\<close> for an integer,
  for the score and for a float, \<^verbatim>\<open>{x:.2f}\<close> for two decimals, and \<^verbatim>\<open>{e}\<close> for an
  exception.\<close>

record formatter =
  fmt_int :: "int \<Rightarrow> string"
  fmt_num :: "rat \<Rightarrow> string"
  fmt_float :: "pyfloat \<Rightarrow> string"
  fmt_2f :: "rat \<Rightarrow> string"
  fmt_exc :: "py_error \<Rightarrow> string"

definition generate_report :: "formatter \<Rightarrow> metrics \<Rightarrow> style_analysis \<Rightarrow> string \<Rightarrow> string" where
  "generate_report f m advanced_style contextual_feedback =
     ''Grammar Analysis Report'' @ newline @
     ''--------------------------'' @ newline @
     ''Overall Score: '' @ fmt_num f (score m) @ ''/100'' @ newline @
     ''Word Count: '' @ fmt_int f (int (word_count m)) @ newline @
     ''Speaking Rate: '' @ fmt_float f (wpm m) @ '' WPM'' @ newline @
     ''Filler Words: '' @ fmt_int f (int (filler_count m)) @ newline @ newline @
     ''Error Breakdown:'' @ newline @
     ''- Grammar: '' @ fmt_int f (int (dict_get (errors m) ''GRAMMAR'' 0)) @ newline @
     ''- Spelling: '' @ fmt_int f (int (dict_get (errors m) ''TYPOS'' 0)) @ newline @
     ''- Punctuation: '' @ fmt_int f (int (dict_get (errors m) ''PUNCTUATION'' 0)) @ newline @ newline @
     ''Advanced Style Metrics:'' @ newline @
     ''- Flesch Reading Ease: '' @ fmt_2f f (flesch_reading_ease advanced_style) @ newline @
     ''- Flesch-Kincaid Grade Level: '' @ fmt_2f f (flesch_kincaid_grade advanced_style) @ newline @
     ''- Gunning Fog Index: '' @ fmt_2f f (gunning_fog advanced_style) @ newline @
     ''Style Comment: '' @ style_comment advanced_style @ newline @
     ''Recommendations: '' @ advanced_recommendations advanced_style @ newline @ newline @
     ''Contextual Language Feedback:'' @ newline @
     contextual_feedback @ newline"

subsection \<open>Program state, external collaborators and their calls\<close>

text \<open>Every call that leaves the program is recorded, in order.\<close>

datatype call =
    StreamOpen nat | StreamStart | StreamStop | StreamClose
  | After nat | AfterCancel string
  | SfWrite string "rat list" nat | SfInfo string | OsRemove string
  | Transcribe string | ToolCheck string | Readability string
  | TagDelete string

text \<open>The module-level variables, the widgets' contents, the error dialogs shown
  (title and message) and the external calls made.\<close>

record app_state =
  recording_stream :: "nat option"
  recorded_frames :: "rat list list"
  recording_start_time :: "rat option"
  timer_job :: "string option"
  inline_errors :: "(string, issue_match) dict"
  transcript_text :: string
  score_label :: string
  errors_text :: string
  style_text :: string
  report_text :: string
  timer_label :: string
  dialogs :: "(string \<times> string) list"
  calls :: "call list"

text \<open>What the surroundings answer during one callback: the clock, the file dialog,
  the libraries. \<open>Inl\<close> and \<open>Some\<close> errors are exceptions raised by the call.\<close>

record env =
  now :: rat
  askopenfilename :: string
  whisper_transcribe :: "string \<Rightarrow> py_error + string"
  sf_info_duration :: "string \<Rightarrow> py_error + pyfloat"
  tool_check :: "string \<Rightarrow> issue_match list"
  readability :: textstat
  fmt :: formatter
  after_id :: string
  open_stream :: "py_error + nat"
  stream_start_error :: "py_error option"
  stream_stop_error :: "py_error option"
  stream_close_error :: "py_error option"
  sf_write_error :: "py_error option"

definition SAMPLE_RATE :: nat where
  "SAMPLE_RATE = 44100"

definition TEMP_AUDIO_FILE :: string where
  "TEMP_AUDIO_FILE = ''temp_recording.wav''"

definition do_call :: "call \<Rightarrow> app_state \<Rightarrow> app_state" where
  "do_call c s = s\<lparr>calls := calls s @ [c]\<rparr>"

definition showerror :: "string \<Rightarrow> string \<Rightarrow> app_state \<Rightarrow> app_state" where
  "showerror title msg s = s\<lparr>dialogs := dialogs s @ [(title, msg)]\<rparr>"

definition audio_callback :: "rat list \<Rightarrow> app_state \<Rightarrow> app_state" where
  "audio_callback indata s = s\<lparr>recorded_frames := recorded_frames s @ [indata]\<rparr>"

subsection \<open>Transcription and the analysis of a transcript\<close>

definition transcribe_audio :: "env \<Rightarrow> string \<Rightarrow> app_state \<Rightarrow> string \<times> app_state" where
  "transcribe_audio e file_path s =
     (let s1 = do_call (Transcribe file_path) s
      in case whisper_transcribe e file_path of
           Inr result_text \<Rightarrow> (result_text, s1)
         | Inl ex \<Rightarrow>
             ([], showerror ''Transcription Error''
                    (''Error during transcription: '' @ fmt_exc (fmt e) ex) s1))"

definition clear_inline_errors :: "app_state \<Rightarrow> app_state" where
  "clear_inline_errors s =
     (fold (\<lambda>tag. do_call (TagDelete tag)) (map fst (inline_errors s)) s)\<lparr>inline_errors := []\<rparr>"

text \<open>The block that \<^verbatim>\<open>process_file\<close> and \<^verbatim>\<open>stop_recording\<close> both run on a transcript:
  grammar check, style analysis, feedback, metrics, report, then the widgets. An
  exception leaves it with the state reached so far.\<close>

definition analyse_transcript ::
  "env \<Rightarrow> string \<Rightarrow> pyfloat \<Rightarrow> app_state \<Rightarrow> (py_error \<times> app_state) + app_state" where
  "analyse_transcript e transcript audio_duration s =
     (let s1 = do_call (ToolCheck transcript) s
      in case check_grammar (tool_check e) transcript of
           Inl ex \<Rightarrow> Inl (ex, s1)
         | Inr (overall, error_details, error_breakdown, total_errors) \<Rightarrow>
             (let s2 = do_call (Readability transcript) s1;
                  advanced_style = advanced_style_analysis (readability e) transcript;
                  contextual_feedback = contextual_language_feedback transcript error_details
              in case compute_metrics transcript audio_duration error_breakdown overall of
                   Inl ex \<Rightarrow> Inl (ex, s2)
                 | Inr m \<Rightarrow>
                     (let report = generate_report (fmt e) m advanced_style contextual_feedback;
                          s3 = s2\<lparr>transcript_text := transcript,
                                  score_label :=
                                    ''Grammar Score: '' @ fmt_num (fmt e) overall @
                                    '' (Total Errors: '' @ fmt_int (fmt e) (int total_errors) @ '')'',
                                  errors_text :=
                                    (if error_details \<noteq> []
                                     then join (newline @ newline) error_details
                                     else ''No grammatical errors found.''),
                                  style_text :=
                                    ''Flesch Reading Ease Score: '' @
                                      fmt_2f (fmt e) (flesch_reading_ease advanced_style) @ newline @
                                    ''Flesch-Kincaid Grade Level: '' @
                                      fmt_2f (fmt e) (flesch_kincaid_grade advanced_style) @ newline @
                                    ''Gunning Fog Index: '' @
                                      fmt_2f (fmt e) (gunning_fog advanced_style) @ newline @
                                    ''Style Comment: '' @ style_comment advanced_style @ newline @
                                    ''Recommendations: '' @ advanced_recommendations advanced_style,
                                  report_text := report\<rparr>
                      in Inr (clear_inline_errors s3))))"

text \<open>\<^verbatim>\<open>process_file\<close>: an exception of the analysis is not caught here.\<close>

definition process_file :: "env \<Rightarrow> app_state \<Rightarrow> (py_error \<times> app_state) + app_state" where
  "process_file e s =
     (let file_path = askopenfilename e
      in if file_path \<noteq> []
         then (let (transcript, s1) = transcribe_audio e file_path s;
                   s2 = do_call (SfInfo file_path) s1;
                   audio_duration = (case sf_info_duration e file_path of
                                       Inr d \<Rightarrow> d
                                     | Inl _ \<Rightarrow> int_to_float 0)
               in analyse_transcript e transcript audio_duration s2)
         else Inr s)"

subsection \<open>The recording controller\<close>

text \<open>\<^verbatim>\<open>int(x)\<close> on a finite float: towards zero.\<close>

definition py_int :: "rat \<Rightarrow> int" where
  "py_int x = (if 0 \<le> x then \<lfloor>x\<rfloor> else \<lceil>x\<rceil>)"

text \<open>\<^verbatim>\<open>update_timer\<close>: \<^verbatim>\<open>int\<close> raises on an infinite difference, before anything is
  assigned.\<close>

definition update_timer :: "env \<Rightarrow> app_state \<Rightarrow> app_state" where
  "update_timer e s =
     (case recording_start_time s of
        None \<Rightarrow> s
      | Some started \<Rightarrow>
          (case float_sub (now e) started of
             Finite seconds \<Rightarrow>
               (let elapsed = py_int seconds;
                    s1 = s\<lparr>timer_label :=
                             ''Recording Time: '' @ fmt_int (fmt e) elapsed @ '' sec''\<rparr>
                in (do_call (After 1000) s1)\<lparr>timer_job := Some (after_id e)\<rparr>)
           | _ \<Rightarrow> s))"

definition start_recording :: "env \<Rightarrow> app_state \<Rightarrow> app_state" where
  "start_recording e s =
     (let s1 = s\<lparr>recorded_frames := [], recording_start_time := Some (now e)\<rparr>;
          s2 = update_timer e s1;
          s3 = do_call (StreamOpen SAMPLE_RATE) s2
      in case open_stream e of
           Inl ex \<Rightarrow>
             showerror ''Recording Error'' (''Error starting recording: '' @ fmt_exc (fmt e) ex) s3
         | Inr stream \<Rightarrow>
             (let s4 = do_call StreamStart (s3\<lparr>recording_stream := Some stream\<rparr>)
              in case stream_start_error e of
                   Some ex \<Rightarrow>
                     showerror ''Recording Error''
                       (''Error starting recording: '' @ fmt_exc (fmt e) ex) s4
                 | None \<Rightarrow> s4))"

definition stop_recording_body :: "env \<Rightarrow> app_state \<Rightarrow> (py_error \<times> app_state) + app_state" where
  "stop_recording_body e s =
     (case recording_stream s of
        None \<Rightarrow> Inr (s\<lparr>timer_label := ''Recording was not started.''\<rparr>)
      | Some stream \<Rightarrow>
          (let s1 = do_call StreamStop s
           in case stream_stop_error e of
                Some ex \<Rightarrow> Inl (ex, s1)
              | None \<Rightarrow>
                  (let s2 = do_call StreamClose s1
                   in case stream_close_error e of
                        Some ex \<Rightarrow> Inl (ex, s2)
                      | None \<Rightarrow>
                          (let s3 = s2\<lparr>recording_stream := None\<rparr>;
                               s4 = (case timer_job s3 of
                                       None \<Rightarrow> s3
                                     | Some job \<Rightarrow>
                                         if job \<noteq> []
                                         then (do_call (AfterCancel job) s3)\<lparr>timer_job := None\<rparr>
                                         else s3)
                           in case recording_start_time s4 of
                                None \<Rightarrow> Inl (TypeError, s4)
                              | Some started \<Rightarrow>
                                  (let audio_duration = float_sub (now e) started
                                   in if recorded_frames s4 \<noteq> []
                                      then (let audio_data = concat (recorded_frames s4);
                                                s5 = do_call (SfWrite TEMP_AUDIO_FILE audio_data SAMPLE_RATE) s4
                                            in case sf_write_error e of
                                                 Some ex \<Rightarrow> Inl (ex, s5)
                                               | None \<Rightarrow>
                                                   (let s6 = s5\<lparr>timer_label := ''Recording Stopped''\<rparr>;
                                                        (transcript, s7) =
                                                          transcribe_audio e TEMP_AUDIO_FILE s6
                                                    in case analyse_transcript e transcript
                                                              audio_duration s7 of
                                                         Inl x \<Rightarrow> Inl x
                                                       | Inr s8 \<Rightarrow>
                                                           Inr (do_call (OsRemove TEMP_AUDIO_FILE) s8)))
                                      else Inr (s4\<lparr>timer_label := ''No audio data recorded.''\<rparr>))))))"

text \<open>\<^verbatim>\<open>stop_recording\<close>: any exception of the body ends in an error dialog.\<close>

definition stop_recording :: "env \<Rightarrow> app_state \<Rightarrow> app_state" where
  "stop_recording e s =
     (case stop_recording_body e s of
        Inr s' \<Rightarrow> s'
      | Inl (ex, s') \<Rightarrow>
          showerror ''Recording Error'' (''Error stopping recording: '' @ fmt_exc (fmt e) ex) s')"

subsection \<open>Notions used to state the properties\<close>

text \<open>The number of matches the classifier puts into a category.\<close>

definition count_category :: "string \<Rightarrow> issue_match list \<Rightarrow> nat" where
  "count_category c ms = length (filter (\<lambda>m. classify_error m = c) ms)"

text \<open>A positive duration of at most \<open>60 / 2\<^sup>1\<^sup>0\<^sup>7\<^sup>5\<close> seconds (about \<open>1.5e-322\<close>): the
  float quotient \<open>duration / 60\<close> is at most half the smallest subnormal double and
  rounds to zero.\<close>

definition underflowing_duration :: "pyfloat \<Rightarrow> bool" where
  "underflowing_duration d = (case d of Finite q \<Rightarrow> 0 < q \<and> q \<le> 60 / 2 ^ 1075 | _ \<Rightarrow> False)"

text \<open>The raw occurrence count of a word in a string: the number of positions at which
  the word occurs, overlapping or not.\<close>

definition raw_occurrences :: "string \<Rightarrow> string \<Rightarrow> nat" where
  "raw_occurrences sub s = length (filter (\<lambda>i. prefix sub (drop i s)) [0..<Suc (length s)])"

text \<open>A word is unbordered when none of its proper non-empty prefixes is also its
  suffix: two occurrences of such a word never overlap.\<close>

definition unbordered :: "string \<Rightarrow> bool" where
  "unbordered w = list_all (\<lambda>k. take k w \<noteq> drop (length w - k) w) [1..<length w]"

text \<open>The category tags a detail string shows (the marker of the category is a
  contiguous part of it), in the order the feedback generator tests them, and the canned
  suggestion of a category.\<close>

definition observed_tags :: "string \<Rightarrow> string list" where
  "observed_tags detail =
     filter (\<lambda>c. sublist (''Category: '' @ c) detail)
       [''TYPOS'', ''GRAMMAR'', ''PUNCTUATION'', ''STYLE'']"

definition suggestion_for :: "string \<Rightarrow> string" where
  "suggestion_for c =
     (if c = ''TYPOS'' then TYPOS_FEEDBACK
      else if c = ''GRAMMAR'' then GRAMMAR_FEEDBACK
      else if c = ''PUNCTUATION'' then PUNCTUATION_FEEDBACK
      else STYLE_FEEDBACK)"

text \<open>A list without its repetitions: every element stays where it first occurs.\<close>

fun first_occurrences :: "'a list \<Rightarrow> 'a list" where
  "first_occurrences [] = []"
| "first_occurrences (x # xs) = x # first_occurrences (filter (\<lambda>y. y \<noteq> x) xs)"

text \<open>What the window shows of the last analysis: the five analysis widgets and the
  inline highlights.\<close>

definition analysis_display ::
  "app_state \<Rightarrow> string \<times> string \<times> string \<times> string \<times> string \<times> (string, issue_match) dict" where
  "analysis_display s =
     (transcript_text s, score_label s, errors_text s, style_text s, report_text s,
      inline_errors s)"

text \<open>The calls that only end a recording: they write no file and are no step of the
  transcription, grammar, style or scoring pipeline.\<close>

fun ends_recording :: "call \<Rightarrow> bool" where
  "ends_recording StreamStop = True"
| "ends_recording StreamClose = True"
| "ends_recording (AfterCancel job) = True"
| "ends_recording c = False"

text \<open>The state of the module when the window opens.\<close>

definition initial_state :: app_state where
  "initial_state =
     \<lparr>recording_stream = None, recorded_frames = [], recording_start_time = None,
      timer_job = None, inline_errors = [], transcript_text = [],
      score_label = ''Grammar Score: N/A'', errors_text = [], style_text = [],
      report_text = [], timer_label = ''Recording Time: 0 sec'', dialogs = [], calls = []\<rparr>"

text \<open>The states the program can be in: it starts in the initial state and moves by its
  callbacks. The correction callbacks, which are not modelled, assign none of the
  recording variables.\<close>

inductive reachable :: "app_state \<Rightarrow> bool" where
  initial: "reachable initial_state"
| start: "reachable s \<Longrightarrow> reachable (start_recording e s)"
| stop: "reachable s \<Longrightarrow> reachable (stop_recording e s)"
| chunk: "reachable s \<Longrightarrow> reachable (audio_callback indata s)"
| tick: "reachable s \<Longrightarrow> reachable (update_timer e s)"
| from_file: "reachable s \<Longrightarrow> process_file e s = Inr s' \<Longrightarrow> reachable s'"
| from_file_raised: "reachable s \<Longrightarrow> process_file e s = Inl (ex, s') \<Longrightarrow> reachable s'"
| correction:
    "reachable s \<Longrightarrow>
     recording_stream s' = recording_stream s \<Longrightarrow>
     recorded_frames s' = recorded_frames s \<Longrightarrow>
     recording_start_time s' = recording_start_time s \<Longrightarrow>
     timer_job s' = timer_job s \<Longrightarrow> reachable s'"

code_pred reachable .

text \<open>Surroundings used in the worked examples: every collaborator answers normally,
  the grammar tool finds nothing, and the file dialog returns \<open>talk.wav\<close>.\<close>

definition example_env :: env where
  "example_env =
     \<lparr>now = 5, askopenfilename = ''talk.wav'',
      whisper_transcribe = (\<lambda>path. Inr ''um so like I went''),
      sf_info_duration = (\<lambda>path. Inr (Finite 10)),
      tool_check = (\<lambda>text. []),
      readability = \<lparr>ts_flesch_reading_ease = (\<lambda>text. 70), ts_flesch_kincaid_grade = (\<lambda>text. 5),
                     ts_gunning_fog = (\<lambda>text. 6)\<rparr>,
      fmt = \<lparr>fmt_int = (\<lambda>n. ''n''), fmt_num = (\<lambda>x. ''x''),
             fmt_float = (\<lambda>x. ''x.x''), fmt_2f = (\<lambda>x. ''x.xx''),
             fmt_exc = (\<lambda>ex. ''exception'')\<rparr>,
      after_id = ''after#0'', open_stream = Inr 1, stream_start_error = None,
      stream_stop_error = None, stream_close_error = None, sf_write_error = None\<rparr>"

section \<open>Verification\<close>

subsection \<open>Strings\<close>

lemma str_contains_sublist: "str_contains sub s = sublist sub s"
  by (induction s) (auto simp: sublist_Cons_right)

subsection \<open>The error classifier\<close>

lemma classify_error_cases:
  "classify_error m = ''GRAMMAR'' \<or> classify_error m = ''TYPOS'' \<or>
   classify_error m = ''PUNCTUATION'' \<or> classify_error m = ''STYLE''"
  by (simp add: classify_error_def Let_def)

text \<open>
  Claim C2, as written, tests the message itself for the keywords; the program tests the
  lowercased message. On a match of another rule whose message is \<open>Style\<close>, none of the
  keyword conditions holds of the message, so the rules as written end in the default
  \<open>GRAMMAR\<close>; the program answers \<open>STYLE\<close>. And a message with the punctuation and the
  style keyword is not \<open>PUNCTUATION\<close> when it also has the spelling keyword: the first
  rule wins.
\<close>

theorem classify_error_case_counterexample:
  "ruleId \<lparr>ruleId = ''EN_QUOTES'', message = ''Style'', match_context = [],
           replacements = [], offset = 0, errorLength = 0\<rparr> \<noteq> ''MORFOLOGIK_RULE_EN_US'' \<and>
   \<not> sublist ''spelling'' ''Style'' \<and> \<not> sublist ''punctuation'' ''Style'' \<and>
   \<not> sublist ''style'' ''Style'' \<and> \<not> sublist ''readability'' ''Style'' \<and>
   classify_error \<lparr>ruleId = ''EN_QUOTES'', message = ''Style'', match_context = [],
                    replacements = [], offset = 0, errorLength = 0\<rparr> = ''STYLE'' \<and>
   sublist ''punctuation'' ''spelling, punctuation and style'' \<and>
   sublist ''style'' ''spelling, punctuation and style'' \<and>
   classify_error \<lparr>ruleId = ''EN_QUOTES'', message = ''spelling, punctuation and style'',
                    match_context = [], replacements = [], offset = 0, errorLength = 0\<rparr>
     = ''TYPOS''"
  by code_simp

text \<open>
  Claim C2, amended: the classifier is total, it returns one of the four category names,
  and it applies the rules in order, first match winning, to the \<^emph>\<open>lowercased\<close> message:
  the spelling rule identifier, or \<open>spelling\<close> in the lowercased message, gives \<open>TYPOS\<close>;
  else \<open>punctuation\<close> in it gives \<open>PUNCTUATION\<close>; else \<open>style\<close> or \<open>readability\<close> in it
  gives \<open>STYLE\<close>; else \<open>GRAMMAR\<close>. A message with both the punctuation and a style keyword
  is never \<open>STYLE\<close>, and is \<open>PUNCTUATION\<close> when the \<open>TYPOS\<close> rule does not apply.
\<close>

theorem classify_error_ordered_rules:
  "classify_error m \<in> {''GRAMMAR'', ''TYPOS'', ''PUNCTUATION'', ''STYLE''} \<and>
   classify_error m =
     (if ruleId m = ''MORFOLOGIK_RULE_EN_US'' \<or> sublist ''spelling'' (lower (message m))
        then ''TYPOS''
      else if sublist ''punctuation'' (lower (message m)) then ''PUNCTUATION''
      else if sublist ''style'' (lower (message m)) \<or> sublist ''readability'' (lower (message m))
        then ''STYLE''
      else ''GRAMMAR'') \<and>
   (sublist ''punctuation'' (lower (message m)) \<and>
    (sublist ''style'' (lower (message m)) \<or> sublist ''readability'' (lower (message m)))
    \<longrightarrow> classify_error m \<noteq> ''STYLE'' \<and>
        (ruleId m \<noteq> ''MORFOLOGIK_RULE_EN_US'' \<and> \<not> sublist ''spelling'' (lower (message m))
         \<longrightarrow> classify_error m = ''PUNCTUATION''))"
  by (simp add: classify_error_def Let_def str_contains_sublist)

theorem classify_error_ordered_rules_witness:
  "sublist ''punctuation'' (lower ''Punctuation and Style'') \<and>
   sublist ''style'' (lower ''Punctuation and Style'') \<and>
   ''COMMA_RULE'' \<noteq> ''MORFOLOGIK_RULE_EN_US'' \<and>
   \<not> sublist ''spelling'' (lower ''Punctuation and Style'') \<and>
   classify_error \<lparr>ruleId = ''COMMA_RULE'', message = ''Punctuation and Style'',
                    match_context = [], replacements = [], offset = 0, errorLength = 0\<rparr>
     = ''PUNCTUATION''"
proof -
  have h: "sublist ''punctuation'' (lower ''Punctuation and Style'') \<and>
           sublist ''style'' (lower ''Punctuation and Style'') \<and>
           ''COMMA_RULE'' \<noteq> ''MORFOLOGIK_RULE_EN_US'' \<and>
           \<not> sublist ''spelling'' (lower ''Punctuation and Style'')"
    by code_simp
  with classify_error_ordered_rules
         [of "\<lparr>ruleId = ''COMMA_RULE'', message = ''Punctuation and Style'',
               match_context = [], replacements = [], offset = 0, errorLength = 0\<rparr>"]
  show ?thesis by simp
qed

subsection \<open>The scorer\<close>

lemma overall_score_breakdown:
  "overall_score (breakdown g t p s) =
     Inr (max (100 - (3 * of_nat g + 2 * of_nat t + 1 * of_nat p + 3 / 2 * of_nat s)) 0)"
  by (simp add: overall_score_def weighted_penalty_def breakdown_def dict_index_def
        ERROR_WEIGHTS_def)

text \<open>
  Claim C1: on every error breakdown (the four categories with natural-number counts) the
  scorer returns \<open>max (100 - (3 * GRAMMAR + 2 * TYPOS + 1 * PUNCTUATION + 1.5 * STYLE)) 0\<close>
  and raises nothing; the value lies between 0 and 100; it is 100 when all counts are
  zero, and 92 for two grammar errors and one typo.
\<close>

theorem scorer_formula_and_range:
  "overall_score (breakdown g t p s) =
     Inr (max (100 - (3 * of_nat g + 2 * of_nat t + 1 * of_nat p + 3 / 2 * of_nat s)) 0) \<and>
   (\<exists>v. overall_score (breakdown g t p s) = Inr v \<and> 0 \<le> v \<and> v \<le> 100) \<and>
   overall_score (breakdown 0 0 0 0) = Inr 100 \<and>
   overall_score (breakdown 2 1 0 0) = Inr 92"
  by (simp add: overall_score_breakdown)

text \<open>
  Claim C5: raising the count of one category, the other three fixed, never raises the
  score. The four conjuncts are the four categories.
\<close>

theorem scorer_monotone:
  "n \<le> n' \<Longrightarrow>
   (\<exists>v v'. overall_score (breakdown n t p s) = Inr v \<and>
           overall_score (breakdown n' t p s) = Inr v' \<and> v' \<le> v) \<and>
   (\<exists>v v'. overall_score (breakdown g n p s) = Inr v \<and>
           overall_score (breakdown g n' p s) = Inr v' \<and> v' \<le> v) \<and>
   (\<exists>v v'. overall_score (breakdown g t n s) = Inr v \<and>
           overall_score (breakdown g t n' s) = Inr v' \<and> v' \<le> v) \<and>
   (\<exists>v v'. overall_score (breakdown g t p n) = Inr v \<and>
           overall_score (breakdown g t p n') = Inr v' \<and> v' \<le> v)"
proof -
  assume "n \<le> n'"
  then have le: "(of_nat n :: rat) \<le> of_nat n'"
    by simp
  have mono: "max (100 - a) 0 \<le> max (100 - b) (0 :: rat)" if "b \<le> a" for a b
    using that by (simp add: max_def)
  have inr: "\<exists>v v'. (Inr a :: py_error + rat) = Inr v \<and> (Inr b :: py_error + rat) = Inr v' \<and> v' \<le> v"
    if "b \<le> a" for a b
    using that by simp
  from le show ?thesis
    unfolding overall_score_breakdown by (intro conjI inr mono) simp_all
qed

theorem scorer_monotone_witness:
  "(1 :: nat) \<le> 2 \<and>
   (\<exists>v v'. overall_score (breakdown 1 4 5 6) = Inr v \<and>
           overall_score (breakdown 2 4 5 6) = Inr v' \<and> v' \<le> v) \<and>
   (\<exists>v v'. overall_score (breakdown 3 1 5 6) = Inr v \<and>
           overall_score (breakdown 3 2 5 6) = Inr v' \<and> v' \<le> v) \<and>
   (\<exists>v v'. overall_score (breakdown 3 4 1 6) = Inr v \<and>
           overall_score (breakdown 3 4 2 6) = Inr v' \<and> v' \<le> v) \<and>
   (\<exists>v v'. overall_score (breakdown 3 4 5 1) = Inr v \<and>
           overall_score (breakdown 3 4 5 2) = Inr v' \<and> v' \<le> v)"
proof -
  have h: "(1 :: nat) \<le> 2" by simp
  from scorer_monotone [OF h, of 4 5 6 3] h show ?thesis by blast
qed

subsection \<open>The grammar check\<close>

lemma dict_incr_breakdown:
  "dict_incr (breakdown g t p s) ''GRAMMAR'' = Inr (breakdown (Suc g) t p s)"
  "dict_incr (breakdown g t p s) ''TYPOS'' = Inr (breakdown g (Suc t) p s)"
  "dict_incr (breakdown g t p s) ''PUNCTUATION'' = Inr (breakdown g t (Suc p) s)"
  "dict_incr (breakdown g t p s) ''STYLE'' = Inr (breakdown g t p (Suc s))"
  by (simp_all add: dict_incr_def dict_index_def breakdown_def)

text \<open>The loop, from any breakdown: every match raises the counter of its own category
  and adds its detail.\<close>

lemma check_loop_breakdown:
  "check_loop ms (breakdown g t p s) ds =
     Inr (breakdown (g + count_category ''GRAMMAR'' ms) (t + count_category ''TYPOS'' ms)
            (p + count_category ''PUNCTUATION'' ms) (s + count_category ''STYLE'' ms),
          ds @ map (\<lambda>m. error_info m (classify_error m)) ms)"
proof (induction ms arbitrary: g t p s ds)
  case Nil
  show ?case by (simp add: count_category_def)
next
  case (Cons m ms)
  from classify_error_cases [of m] show ?case
    by (elim disjE) (simp_all add: Cons.IH dict_incr_breakdown count_category_def Let_def)
qed

lemma count_category_partition:
  "count_category ''GRAMMAR'' ms + count_category ''TYPOS'' ms +
   count_category ''PUNCTUATION'' ms + count_category ''STYLE'' ms = length ms"
proof (induction ms)
  case Nil
  show ?case by (simp add: count_category_def)
next
  case (Cons m ms)
  from classify_error_cases [of m] Cons.IH show ?case
    by (elim disjE) (simp_all add: count_category_def)
qed

lemma check_matches_eq:
  "check_matches ms =
     Inr (max (100 - (3 * of_nat (count_category ''GRAMMAR'' ms)
                      + 2 * of_nat (count_category ''TYPOS'' ms)
                      + 1 * of_nat (count_category ''PUNCTUATION'' ms)
                      + 3 / 2 * of_nat (count_category ''STYLE'' ms))) 0,
          map (\<lambda>m. error_info m (classify_error m)) ms,
          breakdown (count_category ''GRAMMAR'' ms) (count_category ''TYPOS'' ms)
            (count_category ''PUNCTUATION'' ms) (count_category ''STYLE'' ms),
          length ms)"
proof -
  have init: "initial_breakdown = breakdown 0 0 0 0"
    by (simp add: initial_breakdown_def breakdown_def)
  show ?thesis
    unfolding check_matches_def init check_loop_breakdown
    by (simp add: overall_score_breakdown)
qed

text \<open>
  Claim C9: for every list of matches the grammar tool returns, the grammar check raises
  nothing, its total is the number of matches, its breakdown holds for each of the four
  categories the number of matches classified into it, and the total is the sum of the
  four counts.
\<close>

theorem check_grammar_total_is_sum:
  "\<exists>overall details eb.
     check_grammar tool text = Inr (overall, details, eb, length (tool text)) \<and>
     eb = breakdown (count_category ''GRAMMAR'' (tool text)) (count_category ''TYPOS'' (tool text))
            (count_category ''PUNCTUATION'' (tool text)) (count_category ''STYLE'' (tool text)) \<and>
     map fst eb = [''GRAMMAR'', ''TYPOS'', ''PUNCTUATION'', ''STYLE''] \<and>
     sum_list (map snd eb) = length (tool text)"
proof -
  have "sum_list (map snd (breakdown g t p s)) = g + t + p + s" for g t p s
    by (simp add: breakdown_def)
  moreover have "map fst (breakdown g t p s) = [''GRAMMAR'', ''TYPOS'', ''PUNCTUATION'', ''STYLE'']"
    for g t p s
    by (simp add: breakdown_def)
  ultimately show ?thesis
    by (simp add: check_grammar_def check_matches_eq count_category_partition)
qed

subsection \<open>Counting occurrences\<close>

lemma raw_occurrences_Nil: "raw_occurrences sub [] = (if sub = [] then 1 else 0)"
  by (simp add: raw_occurrences_def)

lemma raw_occurrences_Cons:
  "raw_occurrences sub (c # cs) = (if prefix sub (c # cs) then 1 else 0) + raw_occurrences sub cs"
proof -
  have "[0..<Suc (length (c # cs))] = 0 # map Suc [0..<Suc (length cs)]"
    by (simp add: upt_conv_Cons map_Suc_upt del: upt_Suc)
  then show ?thesis
    by (simp add: raw_occurrences_def filter_map comp_def del: upt_Suc)
qed

text \<open>Positions without an occurrence can be skipped.\<close>

lemma raw_occurrences_skip:
  "sub \<noteq> [] \<Longrightarrow> (\<And>j. j < m \<Longrightarrow> \<not> prefix sub (drop j t)) \<Longrightarrow>
   raw_occurrences sub (drop m t) = raw_occurrences sub t"
proof (induction m arbitrary: t)
  case 0
  show ?case by simp
next
  case (Suc m)
  show ?case
  proof (cases t)
    case Nil
    then show ?thesis by simp
  next
    case (Cons a t')
    have "\<not> prefix sub (drop 0 t)"
      using Suc.prems(2) [of 0] by simp
    then have here: "\<not> prefix sub (a # t')"
      using Cons by simp
    have "\<not> prefix sub (drop j t')" if "j < m" for j
      using Suc.prems(2) [of "Suc j"] that Cons by simp
    with Suc.IH [OF Suc.prems(1)] have "raw_occurrences sub (drop m t') = raw_occurrences sub t'"
      by blast
    with here Cons show ?thesis
      by (simp add: raw_occurrences_Cons)
  qed
qed

text \<open>After an occurrence of an unbordered word, the next one starts past its end.\<close>

lemma unbordered_no_overlap:
  assumes "unbordered w" and "prefix w s" and "0 < j" and "j < length w"
  shows "\<not> prefix w (drop j s)"
proof
  assume ov: "prefix w (drop j s)"
  from \<open>prefix w s\<close> obtain r where s: "s = w @ r"
    by (auto simp: prefix_def)
  from ov obtain r' where "drop j s = w @ r'"
    by (auto simp: prefix_def)
  with s \<open>j < length w\<close> have eq: "drop j w @ r = w @ r'"
    by simp
  have "take (length w - j) (drop j w @ r) = drop j w"
    by simp
  moreover have "take (length w - j) (w @ r') = take (length w - j) w"
    by simp
  ultimately have "take (length w - j) w = drop j w"
    using eq by simp
  moreover have "drop j w = drop (length w - (length w - j)) w"
    using \<open>j < length w\<close> by simp
  moreover have "length w - j \<in> set [1..<length w]"
    using \<open>0 < j\<close> \<open>j < length w\<close> by auto
  ultimately show False
    using \<open>unbordered w\<close> unfolding unbordered_def list_all_iff by metis
qed

text \<open>So on an unbordered word the left-to-right scan of \<^verbatim>\<open>str.count\<close> finds every
  occurrence.\<close>

lemma count_scan_raw_occurrences:
  "unbordered w \<Longrightarrow> w \<noteq> [] \<Longrightarrow> count_scan w s = raw_occurrences w s"
proof (induction w s rule: count_scan.induct)
  case (1 sub)
  then show ?case by (simp add: raw_occurrences_Nil)
next
  case (2 sub c cs)
  show ?case
  proof (cases "prefix sub (c # cs)")
    case False
    with 2 show ?thesis
      by (simp add: raw_occurrences_Cons)
  next
    case True
    have "\<not> prefix sub (drop j cs)" if "j < length sub - 1" for j
    proof -
      have "\<not> prefix sub (drop (Suc j) (c # cs))"
        using unbordered_no_overlap [OF "2.prems"(1) True, of "Suc j"] that by simp
      then show ?thesis by simp
    qed
    with raw_occurrences_skip [OF "2.prems"(2), of "length sub - 1" cs]
    have "raw_occurrences sub (drop (length sub - 1) cs) = raw_occurrences sub cs"
      by blast
    with True 2 show ?thesis
      by (simp add: raw_occurrences_Cons)
  qed
qed

lemma filler_words_unbordered:
  "unbordered ''um''" "unbordered ''uh''" "unbordered ''like''"
  "unbordered ''you know''" "unbordered ''ah''" "unbordered ''er''"
  by (simp_all add: unbordered_def upt_conv_Cons)

lemma filler_count_raw:
  "sum_list (map (str_count s) FILLER_WORDS) =
   sum_list (map (\<lambda>w. raw_occurrences w s) FILLER_WORDS)"
  by (simp add: FILLER_WORDS_def str_count_def count_scan_raw_occurrences filler_words_unbordered)

subsection \<open>Floats\<close>

lemma round_half_even_bounds:
  "of_int (round_half_even x) \<le> x + 1 / 2 \<and> x - 1 / 2 \<le> of_int (round_half_even x)"
  unfolding round_half_even_def Let_def by (auto; linarith)

lemma round_half_even_pos: "1 / 2 < x \<Longrightarrow> 0 < round_half_even x"
proof -
  assume x: "1 / 2 < x"
  then have f: "0 \<le> \<lfloor>x\<rfloor>"
    by simp
  show ?thesis
  proof (cases "\<lfloor>x\<rfloor> = 0")
    case True
    with x have "1 / 2 < x - of_int \<lfloor>x\<rfloor>" by simp
    with True show ?thesis
      by (simp add: round_half_even_def Let_def)
  next
    case False
    with f have "0 < \<lfloor>x\<rfloor>" by (metis order_le_less)
    then show ?thesis
      by (auto simp: round_half_even_def Let_def)
  qed
qed

text \<open>The binary exponent is the right one.\<close>

lemma floor_log2_bounds:
  assumes "0 < x"
  shows "2 powi (floor_log2 x) \<le> x" and "x < 2 powi (floor_log2 x + 1)"
proof -
  obtain a b where q: "quotient_of x = (a, b)"
    by (cases "quotient_of x")
  then have b: "0 < b" and x: "x = of_int a / of_int b"
    by (simp_all add: quotient_of_denom_pos quotient_of_div)
  with assms have a: "0 < a"
    by (simp add: zero_less_divide_iff)
  let ?k = "bitlen a - bitlen b"
  have la: "1 \<le> bitlen a" and lb: "1 \<le> bitlen b"
    using a b by (simp_all add: bitlen_alt_def)
  have a_lo: "(2::rat) ^ nat (bitlen a - 1) \<le> of_int a"
  proof -
    have "(2::int) ^ nat (bitlen a - 1) \<le> a"
      using bitlen_bounds [OF a] by simp
    then have "of_int ((2::int) ^ nat (bitlen a - 1)) \<le> (of_int a :: rat)"
      by (simp only: of_int_le_iff)
    then show ?thesis by simp
  qed
  have a_hi: "(of_int a :: rat) < 2 ^ nat (bitlen a)"
  proof -
    have "a < 2 ^ nat (bitlen a)"
      using bitlen_bounds [OF a] by simp
    then have "(of_int a :: rat) < of_int ((2::int) ^ nat (bitlen a))"
      by (simp only: of_int_less_iff)
    then show ?thesis by simp
  qed
  have b_lo: "(2::rat) ^ nat (bitlen b - 1) \<le> of_int b"
  proof -
    have "(2::int) ^ nat (bitlen b - 1) \<le> b"
      using bitlen_bounds [OF b] by simp
    then have "of_int ((2::int) ^ nat (bitlen b - 1)) \<le> (of_int b :: rat)"
      by (simp only: of_int_le_iff)
    then show ?thesis by simp
  qed
  have b_hi: "(of_int b :: rat) < 2 ^ nat (bitlen b)"
  proof -
    have "b < 2 ^ nat (bitlen b)"
      using bitlen_bounds [OF b] by simp
    then have "(of_int b :: rat) < of_int ((2::int) ^ nat (bitlen b))"
      by (simp only: of_int_less_iff)
    then show ?thesis by simp
  qed
  have lower: "(2::rat) powi (?k - 1) \<le> x"
  proof -
    have "?k - 1 = (bitlen a - 1) - bitlen b"
      by simp
    then have "(2::rat) powi (?k - 1) = 2 powi ((bitlen a - 1) - bitlen b)"
      by (rule arg_cong)
    also have "\<dots> = 2 powi (bitlen a - 1) / 2 powi (bitlen b)"
      by (rule power_int_diff) simp
    also have "\<dots> = 2 ^ nat (bitlen a - 1) / 2 ^ nat (bitlen b)"
      using la lb by (simp add: power_int_nonneg_exp)
    also have "\<dots> \<le> of_int a / of_int b"
      using a_lo b_hi a b by (intro frac_le) simp_all
    finally show ?thesis
      unfolding x .
  qed
  have upper: "x < (2::rat) powi (?k + 1)"
  proof -
    have "x = of_int a / of_int b"
      by (rule x)
    also have "\<dots> < 2 ^ nat (bitlen a) / 2 ^ nat (bitlen b - 1)"
      using a_hi b_lo a b by (intro frac_less) simp_all
    also have "\<dots> = 2 powi (bitlen a) / 2 powi (bitlen b - 1)"
      using la lb by (simp add: power_int_nonneg_exp)
    also have "\<dots> = 2 powi (bitlen a - (bitlen b - 1))"
      by (rule power_int_diff [symmetric]) simp
    also have "bitlen a - (bitlen b - 1) = ?k + 1"
      by simp
    finally show ?thesis .
  qed
  show "2 powi (floor_log2 x) \<le> x"
  proof (cases "2 powi ?k \<le> x")
    case True
    then show ?thesis by (simp add: floor_log2_def q)
  next
    case False
    then have "floor_log2 x = ?k - 1"
      by (simp add: floor_log2_def q)
    with lower show ?thesis by simp
  qed
  show "x < 2 powi (floor_log2 x + 1)"
  proof (cases "2 powi ?k \<le> x")
    case True
    then have "floor_log2 x = ?k"
      by (simp add: floor_log2_def q)
    with upper show ?thesis by simp
  next
    case False
    then have "floor_log2 x = ?k - 1"
      by (simp add: floor_log2_def q)
    with False show ?thesis by simp
  qed
qed


lemma round_to_double_nonzero:
  assumes "1 / 2 ^ 1075 < x"
  shows "round_to_double x \<noteq> Finite 0"
proof -
  have pos: "0 < x"
    using assms by (rule le_less_trans [rotated]) simp
  let ?q = "(2::rat) powi (max (floor_log2 \<bar>x\<bar>) (- 1022) - 52)"
  have qpos: "0 < ?q" by simp
  have "?q < 2 * x"
  proof (cases "floor_log2 x \<le> - 1022")
    case True
    then have "?q = 2 powi (- 1074)" using pos by (simp add: max_def)
    also have "\<dots> = 1 / 2 ^ 1074" by (simp add: power_int_minus_divide)
    finally show ?thesis using assms by simp
  next
    case False
    then have "?q = 2 powi (floor_log2 x - 52)" using pos by (simp add: max_def)
    also have "\<dots> \<le> 2 powi (floor_log2 x)"
      by (rule power_int_increasing) simp_all
    also have "\<dots> \<le> x" by (rule floor_log2_bounds [OF pos])
    finally show ?thesis using pos by simp
  qed
  with qpos have "1 / 2 < x / ?q"
    by (simp add: field_simps)
  then have "0 < round_half_even (x / ?q)"
    by (rule round_half_even_pos)
  with qpos have "0 < of_int (round_half_even (x / ?q)) * ?q"
    by simp
  with pos show ?thesis
    by (auto simp: round_to_double_def Let_def simp del: power_int_numeral_neg_numeral)
qed

text \<open>A division raises only on a zero divisor.\<close>

lemma truediv_Inr: "b \<noteq> Finite 0 \<Longrightarrow> \<exists>q. truediv a b = Inr q"
  by (cases a; cases b) auto

lemma truediv_zero: "truediv a (Finite 0) = Inl ZeroDivisionError"
  by simp

lemma floor_log2_unique:
  assumes "0 < x" and "2 powi k \<le> x" and "x < 2 powi (k + 1)"
  shows "floor_log2 x = k"
proof (rule antisym)
  show "floor_log2 x \<le> k"
  proof (rule ccontr)
    assume "\<not> floor_log2 x \<le> k"
    then have "(2::rat) powi (k + 1) \<le> 2 powi (floor_log2 x)"
      by (intro power_int_increasing) simp_all
    also have "\<dots> \<le> x"
      by (rule floor_log2_bounds [OF assms(1)])
    finally show False using assms(3) by simp
  qed
  show "k \<le> floor_log2 x"
  proof (rule ccontr)
    assume "\<not> k \<le> floor_log2 x"
    then have "(2::rat) powi (floor_log2 x + 1) \<le> 2 powi k"
      by (intro power_int_increasing) simp_all
    also note assms(2)
    finally show False using floor_log2_bounds(2) [OF assms(1)] by simp
  qed
qed

text \<open>Rounding a positive result whose binary exponent is known.\<close>

lemma round_to_double_at:
  assumes "0 < x" and "2 powi k \<le> x" and "x < 2 powi (k + 1)" and "- 1022 \<le> k"
    and "y = of_int (round_half_even (x / 2 powi (k - 52))) * 2 powi (k - 52)"
    and "\<bar>y\<bar> < 2 ^ 1024"
  shows "round_to_double x = Finite y"
proof -
  have "floor_log2 \<bar>x\<bar> = k"
    using assms(1-3) by (simp add: floor_log2_unique)
  with assms(4) have "max (floor_log2 \<bar>x\<bar>) (- 1022) - 52 = k - 52"
    by simp
  with assms(1,5,6) show ?thesis
    by (simp add: round_to_double_def Let_def del: power_int_numeral_neg_numeral)
qed

lemma floor_rat_numeral: "\<lfloor>(numeral a / numeral b :: rat)\<rfloor> = numeral a div numeral b"
  using floor_divide_of_int_eq [of "numeral a" "numeral b", where ?'a = rat] by simp


lemma round_half_even_of_int: "round_half_even (of_int j) = j"
  by (simp add: round_half_even_def)

text \<open>Integers below \<open>2\<^sup>5\<^sup>3\<close> are doubles.\<close>

lemma int_to_float_exact:
  assumes "n < 2 ^ 53"
  shows "int_to_float (int n) = Finite (of_nat n)"
proof (cases "n = 0")
  case True
  then show ?thesis by (simp add: int_to_float_def round_to_double_def)
next
  case False
  let ?x = "of_nat n :: rat"
  let ?k = "floor_log2 ?x"
  have pos: "0 < ?x" using False by simp
  have one: "1 \<le> ?x" using False by (simp add: Suc_leI)
  have lt: "?x < 2 ^ 53"
  proof -
    have "(of_nat n :: rat) < of_nat (2 ^ 53)"
      using assms by (simp only: of_nat_less_iff)
    then show ?thesis by simp
  qed
  have k0: "0 \<le> ?k"
  proof (rule ccontr)
    assume "\<not> 0 \<le> ?k"
    then have "(2::rat) powi (?k + 1) \<le> 2 powi 0"
      by (intro power_int_increasing) simp_all
    with floor_log2_bounds(2) [OF pos] one show False by simp
  qed
  have k52: "?k \<le> 52"
  proof (rule ccontr)
    assume "\<not> ?k \<le> 52"
    then have "(2::rat) powi 53 \<le> 2 powi ?k"
      by (intro power_int_increasing) simp_all
    also have "\<dots> \<le> ?x" by (rule floor_log2_bounds [OF pos])
    finally show False using lt by simp
  qed
  define m where "m = nat (52 - ?k)"
  have q: "(2::rat) powi (?k - 52) = 1 / 2 ^ m"
  proof -
    have "?k - 52 = - int m" using k52 by (simp add: m_def)
    then have "(2::rat) powi (?k - 52) = 2 powi (- int m)" by (rule arg_cong)
    also have "\<dots> = 1 / 2 ^ m" by (simp add: power_int_minus_divide)
    finally show ?thesis .
  qed
  have "?x / 2 powi (?k - 52) = of_int (int n * 2 ^ m)"
    by (simp add: q)
  then have "round_half_even (?x / 2 powi (?k - 52)) = int n * 2 ^ m"
    by (simp only: round_half_even_of_int)
  then have y: "?x = of_int (round_half_even (?x / 2 powi (?k - 52))) * 2 powi (?k - 52)"
    by (simp add: q)
  have big: "\<bar>?x\<bar> < 2 ^ 1024"
  proof -
    have "(2::rat) ^ 53 \<le> 2 ^ 1024" by (rule power_increasing) simp_all
    with lt show ?thesis by simp
  qed
  have "round_to_double ?x = Finite ?x"
    using floor_log2_bounds [OF pos] k0 y big
    by (intro round_to_double_at [where k = ?k] pos) simp_all
  then show ?thesis by (simp add: int_to_float_def)
qed

lemma int_to_float_small:
  "int_to_float 0 = Finite 0" "int_to_float 60 = Finite 60"
  using int_to_float_exact [of 0] int_to_float_exact [of 60] by simp_all


subsection \<open>The metrics computer\<close>

lemma compute_metrics_eq:
  "compute_metrics transcript d eb sc =
     (case words_per_minute (length (split transcript)) d of
        Inl ex \<Rightarrow> Inl ex
      | Inr w \<Rightarrow>
          Inr \<lparr>score = sc, word_count = length (split transcript), wpm = w,
               filler_count = sum_list (map (str_count (lower transcript)) FILLER_WORDS),
               errors = [(''GRAMMAR'', dict_get eb ''GRAMMAR'' 0),
                         (''TYPOS'', dict_get eb ''TYPOS'' 0),
                         (''PUNCTUATION'', dict_get eb ''PUNCTUATION'' 0)]\<rparr>)"
  by (simp add: compute_metrics_def Let_def split: sum.splits)

text \<open>The speaking rate: the guard, the underflow of \<open>duration / 60\<close>, and the other
  positive durations.\<close>

lemma words_per_minute_guard:
  "\<not> float_less (Finite 0) d \<Longrightarrow> words_per_minute wc d = Inr (Finite 0)"
  by (simp add: words_per_minute_def int_to_float_small)


lemma minutes_nonzero:
  assumes "float_less (Finite 0) d" and "\<not> underflowing_duration d"
  shows "\<exists>x. truediv d (Finite 60) = Inr x \<and> x \<noteq> Finite 0"
proof (cases d)
  case (Finite q)
  with assms have "60 / 2 ^ 1075 < q"
    by (simp add: underflowing_duration_def)
  then have "1 / 2 ^ 1075 < q / 60"
    by simp
  then have "round_to_double (q / 60) \<noteq> Finite 0"
    by (rule round_to_double_nonzero)
  with Finite show ?thesis by simp
qed (use assms in simp_all)

lemma words_per_minute_positive:
  assumes "float_less (Finite 0) d" and "\<not> underflowing_duration d"
  shows "\<exists>x q. truediv d (int_to_float 60) = Inr x \<and>
               truediv (int_to_float (int wc)) x = Inr q \<and>
               words_per_minute wc d = Inr (py_round q 2)"
proof -
  from minutes_nonzero [OF assms] obtain x
    where x: "truediv d (Finite 60) = Inr x" "x \<noteq> Finite 0"
    by blast
  from truediv_Inr [OF x(2)] obtain q where q: "truediv (int_to_float (int wc)) x = Inr q"
    by blast
  from assms(1) x q show ?thesis
    by (simp add: words_per_minute_def int_to_float_small)
qed

lemma words_per_minute_returns:
  "\<not> underflowing_duration d \<Longrightarrow> \<exists>w. words_per_minute wc d = Inr w"
  using words_per_minute_guard [of d wc] words_per_minute_positive [of d wc] by blast

lemma compute_metrics_returns:
  "\<not> underflowing_duration d \<Longrightarrow> \<exists>m. compute_metrics transcript d eb sc = Inr m"
  using words_per_minute_returns [of d "length (split transcript)"]
  by (auto simp: compute_metrics_eq)


lemma compute_metrics_InrD:
  assumes "compute_metrics transcript d eb sc = Inr m"
  shows "score m = sc" "word_count m = length (split transcript)"
    "filler_count m = sum_list (map (str_count (lower transcript)) FILLER_WORDS)"
    "errors m = [(''GRAMMAR'', dict_get eb ''GRAMMAR'' 0), (''TYPOS'', dict_get eb ''TYPOS'' 0),
                 (''PUNCTUATION'', dict_get eb ''PUNCTUATION'' 0)]"
    "words_per_minute (length (split transcript)) d = Inr (wpm m)"
  using assms by (auto simp: compute_metrics_eq split: sum.splits)













lemma minutes_d: "round_to_double (10 / 60) = Finite (6004799503160661 / 36028797018963968)"
  by (rule round_to_double_at [where k = "-3"])
     (simp_all add: round_half_even_def Let_def floor_rat_numeral)

lemma quotient_d: "round_to_double (5 / (6004799503160661 / 36028797018963968)) = Finite (30)"
  by (rule round_to_double_at [where k = "4"])
     (simp_all add: round_half_even_def Let_def floor_rat_numeral)

lemma rounded_d: "round_to_double (3000 / 100) = Finite (30)"
  by (rule round_to_double_at [where k = "4"])
     (simp_all add: round_half_even_def Let_def floor_rat_numeral)

lemma wpm_d: "words_per_minute 5 (Finite 10) = Inr (Finite (30))"
  using minutes_d quotient_d rounded_d int_to_float_exact [of 5]
  by (simp add: words_per_minute_def int_to_float_small py_round_def round_half_even_def Let_def
        floor_rat_numeral)









lemma scenario_words: "length (split ''um so like I went'') = 5"
  by code_simp

lemma scenario_fillers:
  "sum_list (map (str_count (lower ''um so like I went'')) FILLER_WORDS) = 2"
  by code_simp

lemma capitals_lower: "lower ''Um, LIKE, duh... you KNOW'' = ''um, like, duh... you know''"
  by code_simp

lemma capitals_fillers:
  "map (str_count (lower ''Um, LIKE, duh... you KNOW'')) FILLER_WORDS = [1, 1, 1, 1, 0, 0]"
  by code_simp

lemma capitals_words: "length (split ''Um, LIKE, duh... you KNOW'') = 5"
  by code_simp

text \<open>
  Claim C4: for every transcript the filler-word count of the metrics is the sum, over
  the words of the filler lexicon, of the raw occurrence count (the number of positions at
  which the word occurs as a substring) of the word in the lowercased transcript; the
  metrics are produced for every duration but the underflowing ones. For the transcript
  \<open>um so like I went\<close> with a duration of 10 seconds the word count is 5, the words per
  minute are 30 and the filler count is 2. For \<open>Um, LIKE, duh... you KNOW\<close>, lowercased to
  \<open>um, like, duh... you know\<close>, the counts of the six words are 1, 1 (inside \<open>duh\<close>), 1, 1,
  0, 0 and the filler count is 4.
\<close>

theorem compute_metrics_filler_count:
  "FILLER_WORDS = [''um'', ''uh'', ''like'', ''you know'', ''ah'', ''er''] \<and>
   (\<forall>m. compute_metrics transcript d eb sc = Inr m \<longrightarrow>
        filler_count m =
          sum_list (map (\<lambda>w. raw_occurrences w (lower transcript)) FILLER_WORDS)) \<and>
   (\<not> underflowing_duration d \<longrightarrow> (\<exists>m. compute_metrics transcript d eb sc = Inr m)) \<and>
   (\<exists>m. compute_metrics ''um so like I went'' (Finite 10) eb sc = Inr m \<and>
        word_count m = 5 \<and> wpm m = Finite 30 \<and> filler_count m = 2) \<and>
   lower ''Um, LIKE, duh... you KNOW'' = ''um, like, duh... you know'' \<and>
   map (\<lambda>w. raw_occurrences w ''um, like, duh... you know'') FILLER_WORDS = [1, 1, 1, 1, 0, 0] \<and>
   (\<exists>m. compute_metrics ''Um, LIKE, duh... you KNOW'' (Finite 10) eb sc = Inr m \<and>
        word_count m = 5 \<and> filler_count m = 4)"
proof (intro conjI allI impI)
  show "FILLER_WORDS = [''um'', ''uh'', ''like'', ''you know'', ''ah'', ''er'']"
    by (simp add: FILLER_WORDS_def)
  show "filler_count m =
          sum_list (map (\<lambda>w. raw_occurrences w (lower transcript)) FILLER_WORDS)"
    if "compute_metrics transcript d eb sc = Inr m" for m
    using compute_metrics_InrD(3) [OF that] by (simp add: filler_count_raw)
  show "\<exists>m. compute_metrics transcript d eb sc = Inr m" if "\<not> underflowing_duration d"
    using that by (rule compute_metrics_returns)
  show "\<exists>m. compute_metrics ''um so like I went'' (Finite 10) eb sc = Inr m \<and>
        word_count m = 5 \<and> wpm m = Finite 30 \<and> filler_count m = 2"
    using wpm_d scenario_words scenario_fillers by (simp add: compute_metrics_eq)
  show "lower ''Um, LIKE, duh... you KNOW'' = ''um, like, duh... you know''"
    by (rule capitals_lower)
  have same: "map (\<lambda>w. raw_occurrences w s) FILLER_WORDS = map (str_count s) FILLER_WORDS" for s
    by (simp add: FILLER_WORDS_def str_count_def count_scan_raw_occurrences
          filler_words_unbordered)
  show "map (\<lambda>w. raw_occurrences w ''um, like, duh... you know'') FILLER_WORDS
        = [1, 1, 1, 1, 0, 0]"
    unfolding same using capitals_fillers by (simp only: capitals_lower)
  have "sum_list (map (str_count (lower ''Um, LIKE, duh... you KNOW'')) FILLER_WORDS) = 4"
    by (simp only: capitals_fillers) simp
  then show "\<exists>m. compute_metrics ''Um, LIKE, duh... you KNOW'' (Finite 10) eb sc = Inr m \<and>
        word_count m = 5 \<and> filler_count m = 4"
    using wpm_d capitals_words by (simp add: compute_metrics_eq)
qed

theorem compute_metrics_filler_count_witness:
  "compute_metrics ''um so like I went'' (Finite 10) [] 100 =
     Inr \<lparr>score = 100, word_count = 5, wpm = Finite 30, filler_count = 2,
          errors = [(''GRAMMAR'', 0), (''TYPOS'', 0), (''PUNCTUATION'', 0)]\<rparr> \<and>
   \<not> underflowing_duration (Finite 10) \<and>
   sum_list (map (\<lambda>w. raw_occurrences w (lower ''um so like I went'')) FILLER_WORDS) = 2"
proof -
  have m: "compute_metrics ''um so like I went'' (Finite 10) [] 100 =
     Inr \<lparr>score = 100, word_count = 5, wpm = Finite 30, filler_count = 2,
          errors = [(''GRAMMAR'', 0), (''TYPOS'', 0), (''PUNCTUATION'', 0)]\<rparr>"
    using wpm_d scenario_words scenario_fillers by (simp add: compute_metrics_eq dict_get_def)
  have u: "\<not> underflowing_duration (Finite 10)"
    by (simp add: underflowing_duration_def)
  from compute_metrics_filler_count [of "''um so like I went''" "Finite 10" "[]" 100] m u
  show ?thesis by auto
qed

text \<open>
  Claim C6: for every transcript, duration, breakdown and score, the error summary of the
  metrics the metrics computer produces has exactly the three keys \<open>GRAMMAR\<close>, \<open>TYPOS\<close> and
  \<open>PUNCTUATION\<close>, in this order, each with the count of the breakdown, or 0 where the
  breakdown has no such key; \<open>STYLE\<close> is not a key of the summary. The metrics are
  produced for every duration but the underflowing ones.
\<close>

theorem compute_metrics_error_summary:
  "(\<forall>m. compute_metrics transcript d eb sc = Inr m \<longrightarrow>
        map fst (errors m) = [''GRAMMAR'', ''TYPOS'', ''PUNCTUATION''] \<and>
        map snd (errors m) =
          [case map_of eb ''GRAMMAR'' of None \<Rightarrow> 0 | Some n \<Rightarrow> n,
           case map_of eb ''TYPOS'' of None \<Rightarrow> 0 | Some n \<Rightarrow> n,
           case map_of eb ''PUNCTUATION'' of None \<Rightarrow> 0 | Some n \<Rightarrow> n] \<and>
        map_of (errors m) ''STYLE'' = None \<and>
        ''STYLE'' \<notin> fst ` set (errors m)) \<and>
   (\<not> underflowing_duration d \<longrightarrow>
      (\<exists>m. compute_metrics transcript d eb sc = Inr m \<and>
        map fst (errors m) = [''GRAMMAR'', ''TYPOS'', ''PUNCTUATION''] \<and>
        map snd (errors m) =
          [case map_of eb ''GRAMMAR'' of None \<Rightarrow> 0 | Some n \<Rightarrow> n,
           case map_of eb ''TYPOS'' of None \<Rightarrow> 0 | Some n \<Rightarrow> n,
           case map_of eb ''PUNCTUATION'' of None \<Rightarrow> 0 | Some n \<Rightarrow> n] \<and>
        map_of (errors m) ''STYLE'' = None \<and>
        ''STYLE'' \<notin> fst ` set (errors m)))"
proof -
  have part: "map fst (errors m) = [''GRAMMAR'', ''TYPOS'', ''PUNCTUATION''] \<and>
        map snd (errors m) =
          [case map_of eb ''GRAMMAR'' of None \<Rightarrow> 0 | Some n \<Rightarrow> n,
           case map_of eb ''TYPOS'' of None \<Rightarrow> 0 | Some n \<Rightarrow> n,
           case map_of eb ''PUNCTUATION'' of None \<Rightarrow> 0 | Some n \<Rightarrow> n] \<and>
        map_of (errors m) ''STYLE'' = None \<and>
        ''STYLE'' \<notin> fst ` set (errors m)"
    if "compute_metrics transcript d eb sc = Inr m" for m
    using compute_metrics_InrD(4) [OF that] by (simp add: dict_get_def)
  with compute_metrics_returns [of d transcript eb sc] show ?thesis
    by blast
qed

theorem compute_metrics_error_summary_witness:
  "compute_metrics ''um so like I went'' (Finite 10) (breakdown 2 1 0 3) 89 =
     Inr \<lparr>score = 89, word_count = 5, wpm = Finite 30, filler_count = 2,
          errors = [(''GRAMMAR'', 2), (''TYPOS'', 1), (''PUNCTUATION'', 0)]\<rparr> \<and>
   \<not> underflowing_duration (Finite 10) \<and>
   map_of (breakdown 2 1 0 3) ''STYLE'' = Some 3"
proof -
  have m: "compute_metrics ''um so like I went'' (Finite 10) (breakdown 2 1 0 3) 89 =
     Inr \<lparr>score = 89, word_count = 5, wpm = Finite 30, filler_count = 2,
          errors = [(''GRAMMAR'', 2), (''TYPOS'', 1), (''PUNCTUATION'', 0)]\<rparr>"
    using wpm_d scenario_words scenario_fillers
    by (simp add: compute_metrics_eq dict_get_def breakdown_def)
  have u: "\<not> underflowing_duration (Finite 10)"
    by (simp add: underflowing_duration_def)
  from compute_metrics_error_summary [of "''um so like I went''" "Finite 10" "breakdown 2 1 0 3" 89]
       m u
  show ?thesis by (simp add: breakdown_def)
qed

subsection \<open>The feedback generator\<close>

lemma set_first_occurrences: "set (first_occurrences xs) = set xs"
  by (induction xs rule: first_occurrences.induct) auto

lemma distinct_first_occurrences: "distinct (first_occurrences xs)"
  by (induction xs rule: first_occurrences.induct) (auto simp: set_first_occurrences)

text \<open>Inserting keys one by one keeps the first occurrences.\<close>

lemma fromkeys_acc_first_occurrences:
  "fromkeys_acc acc xs = acc @ first_occurrences (filter (\<lambda>y. y \<notin> set acc) xs)"
proof (induction xs arbitrary: acc)
  case Nil
  show ?case by simp
next
  case (Cons x xs)
  show ?case
  proof (cases "x \<in> set acc")
    case True
    then show ?thesis by (simp add: Cons.IH)
  next
    case False
    have "filter (\<lambda>y. y \<notin> set (acc @ [x])) xs =
          filter (\<lambda>y. y \<noteq> x) (filter (\<lambda>y. y \<notin> set acc) xs)"
      by (auto intro: filter_cong)
    with False show ?thesis by (simp add: Cons.IH)
  qed
qed

lemma fromkeys_first_occurrences: "fromkeys xs = first_occurrences xs"
  by (simp add: fromkeys_def fromkeys_acc_first_occurrences)

lemma first_occurrences_map:
  "inj_on f (set xs) \<Longrightarrow> first_occurrences (map f xs) = map f (first_occurrences xs)"
proof (induction xs rule: first_occurrences.induct)
  case 1
  show ?case by simp
next
  case (2 x xs)
  have "filter (\<lambda>y. y \<noteq> f x) (map f xs) = map f (filter (\<lambda>y. y \<noteq> x) xs)"
    using "2.prems" by (auto simp: filter_map comp_def inj_on_def intro!: filter_cong arg_cong [where f = "map f"])
  moreover have "inj_on f (set (filter (\<lambda>y. y \<noteq> x) xs))"
    using "2.prems" by (auto simp: inj_on_def)
  ultimately show ?case
    using "2.IH" by simp
qed

lemma feedback_step_eq:
  "feedback_step suggestions detail = suggestions @ map suggestion_for (observed_tags detail)"
  by (simp add: feedback_step_def observed_tags_def suggestion_for_def Let_def
        str_contains_sublist)

lemma feedback_loop_eq:
  "feedback_loop suggestions details =
     suggestions @ map suggestion_for (concat (map observed_tags details))"
  by (induction details arbitrary: suggestions) (simp_all add: feedback_step_eq)

lemma set_observed_tags:
  "set (observed_tags detail) \<subseteq> {''TYPOS'', ''GRAMMAR'', ''PUNCTUATION'', ''STYLE''}"
  by (auto simp: observed_tags_def)

lemma inj_on_suggestion_for:
  "inj_on suggestion_for {''TYPOS'', ''GRAMMAR'', ''PUNCTUATION'', ''STYLE''}"
  by (simp add: inj_on_def suggestion_for_def TYPOS_FEEDBACK_def GRAMMAR_FEEDBACK_def
        PUNCTUATION_FEEDBACK_def STYLE_FEEDBACK_def)

lemma inj_on_observed:
  "inj_on suggestion_for (set (concat (map observed_tags details)))"
proof (rule inj_on_subset [OF inj_on_suggestion_for])
  show "set (concat (map observed_tags details))
        \<subseteq> {''TYPOS'', ''GRAMMAR'', ''PUNCTUATION'', ''STYLE''}"
    using set_observed_tags by fastforce
qed

lemma feedback_example:
  "contextual_language_feedback []
     [''Error: a. Category: GRAMMAR'', ''Category: TYPOS, twice'', ''Category: GRAMMAR'',
      ''Category: STYLE and Category: PUNCTUATION''] =
   ''Review grammar suggestions and study common grammatical patterns. Review suggested corrections for typos and consider using a spell-checker. Review punctuation guidelines to improve sentence clarity. Consider revising stylistically ambiguous sentences for better readability.''"
  by code_simp

lemma feedback_none_example:
  "contextual_language_feedback [] [''nothing to see'', ''category: typos''] =
   ''No additional contextual feedback available.''"
  by code_simp

text \<open>
  Claim C7: for every list of error details, with \<open>tags\<close> the category tags the details
  show (a detail shows a tag when \<open>Category: \<close> followed by the tag is a contiguous part
  of it) and \<open>cats\<close> the distinct ones among them in the order of their first occurrence,
  the feedback generator returns the canned suggestions of \<open>cats\<close>, one for each, joined by
  single spaces; these suggestions are pairwise different, so a repeated tag gives no
  repeated suggestion; and it returns the fixed no-feedback sentence when no tag is shown,
  as on the empty list. On four details tagged \<open>GRAMMAR\<close>, \<open>TYPOS\<close>, \<open>GRAMMAR\<close> and
  \<open>STYLE\<close> with \<open>PUNCTUATION\<close> it returns the four suggestions for grammar, typos,
  punctuation and style, in this order, once each.
\<close>

theorem contextual_language_feedback_dedup:
  "(let tags = concat (map observed_tags error_details);
        cats = first_occurrences tags
    in distinct cats \<and> set cats = set tags \<and>
       distinct (map suggestion_for cats) \<and>
       contextual_language_feedback text error_details =
         (if cats = [] then NO_FEEDBACK else join '' '' (map suggestion_for cats))) \<and>
   contextual_language_feedback text [] = ''No additional contextual feedback available.'' \<and>
   contextual_language_feedback text [''nothing to see'', ''category: typos''] =
     ''No additional contextual feedback available.'' \<and>
   contextual_language_feedback text
     [''Error: a. Category: GRAMMAR'', ''Category: TYPOS, twice'', ''Category: GRAMMAR'',
      ''Category: STYLE and Category: PUNCTUATION''] =
   ''Review grammar suggestions and study common grammatical patterns. Review suggested corrections for typos and consider using a spell-checker. Review punctuation guidelines to improve sentence clarity. Consider revising stylistically ambiguous sentences for better readability.'' \<and>
   join '' '' [''a'', ''b'', ''c''] = ''a b c'' \<and>
   suggestion_for ''GRAMMAR'' = ''Review grammar suggestions and study common grammatical patterns.'' \<and>
   suggestion_for ''TYPOS'' = ''Review suggested corrections for typos and consider using a spell-checker.'' \<and>
   suggestion_for ''PUNCTUATION'' = ''Review punctuation guidelines to improve sentence clarity.'' \<and>
   suggestion_for ''STYLE'' = ''Consider revising stylistically ambiguous sentences for better readability.''"
proof -
  let ?tags = "concat (map observed_tags error_details)"
  have sugg: "fromkeys (feedback_loop [] error_details)
              = map suggestion_for (first_occurrences ?tags)"
    using first_occurrences_map [OF inj_on_observed, of error_details]
    by (simp add: feedback_loop_eq fromkeys_first_occurrences)
  have "inj_on suggestion_for (set (first_occurrences ?tags))"
    unfolding set_first_occurrences by (rule inj_on_observed)
  then have d: "distinct (map suggestion_for (first_occurrences ?tags))"
    by (simp add: distinct_map distinct_first_occurrences)
  have same: "contextual_language_feedback text ds = contextual_language_feedback [] ds" for ds
    by (simp add: contextual_language_feedback_def)
  have ex: "contextual_language_feedback text [] = NO_FEEDBACK"
    by (simp add: contextual_language_feedback_def fromkeys_def)
  have sf: "suggestion_for ''GRAMMAR'' = GRAMMAR_FEEDBACK" "suggestion_for ''TYPOS'' = TYPOS_FEEDBACK"
    "suggestion_for ''PUNCTUATION'' = PUNCTUATION_FEEDBACK" "suggestion_for ''STYLE'' = STYLE_FEEDBACK"
    by (simp_all add: suggestion_for_def)
  have general: "let tags = concat (map observed_tags error_details);
        cats = first_occurrences tags
    in distinct cats \<and> set cats = set tags \<and>
       distinct (map suggestion_for cats) \<and>
       contextual_language_feedback text error_details =
         (if cats = [] then NO_FEEDBACK else join '' '' (map suggestion_for cats))"
    using d
    by (simp add: Let_def contextual_language_feedback_def sugg distinct_first_occurrences
          set_first_occurrences)
  show ?thesis
    apply (intro conjI)
            apply (rule general)
           apply (simp add: ex NO_FEEDBACK_def)
          apply (simp only: same [of "[''nothing to see'', ''category: typos'']"] feedback_none_example)
         apply (simp only: same [of "[''Error: a. Category: GRAMMAR'', ''Category: TYPOS, twice'', ''Category: GRAMMAR'', ''Category: STYLE and Category: PUNCTUATION'']"] feedback_example)
        apply simp
       apply (simp add: sf GRAMMAR_FEEDBACK_def)
      apply (simp add: sf TYPOS_FEEDBACK_def)
     apply (simp add: sf PUNCTUATION_FEEDBACK_def)
    apply (simp add: sf STYLE_FEEDBACK_def)
    done
qed

subsection \<open>The recording controller\<close>

lemma fold_do_call:
  "fold (\<lambda>tag. do_call (TagDelete tag)) tags s = s\<lparr>calls := calls s @ map TagDelete tags\<rparr>"
  by (induction tags arbitrary: s) (simp_all add: do_call_def)

lemma clear_inline_errors_eq:
  "clear_inline_errors s =
     s\<lparr>calls := calls s @ map TagDelete (map fst (inline_errors s)), inline_errors := []\<rparr>"
  by (simp add: clear_inline_errors_def fold_do_call)

lemma check_matches_Nil: "check_matches [] = Inr (100, [], breakdown 0 0 0 0, 0)"
  by (simp add: check_matches_eq count_category_def)

lemma float_sub_same: "float_sub a a = Finite 0"
  by (simp add: float_sub_def round_to_double_def)

text \<open>A recording that was started has its start time, whether or not the stream opened.\<close>

lemma start_recording_start_time:
  "recording_start_time (start_recording e s) = Some (now e) \<and>
   recorded_frames (start_recording e s) = []"
  by (simp add: start_recording_def update_timer_def float_sub_same do_call_def showerror_def
        Let_def split: sum.splits option.splits)

lemma stop_recording_not_started:
  "recording_stream s = None \<Longrightarrow>
   stop_recording e s = s\<lparr>timer_label := ''Recording was not started.''\<rparr>"
  by (simp add: stop_recording_def stop_recording_body_def)

lemma stop_recording_no_frames:
  assumes "recording_stream s = Some h" and "recorded_frames s = []"
  shows "\<exists>cs. calls (stop_recording e s) = calls s @ cs \<and> list_all ends_recording cs"
    and "analysis_display (stop_recording e s) = analysis_display s"
    and "stream_stop_error e = None \<Longrightarrow> stream_close_error e = None \<Longrightarrow>
         recording_start_time s \<noteq> None \<Longrightarrow>
         dialogs (stop_recording e s) = dialogs s \<and>
         timer_label (stop_recording e s) = ''No audio data recorded.'' \<and>
         recording_stream (stop_recording e s) = None"
    and "stream_stop_error e = Some ex \<Longrightarrow>
         dialogs (stop_recording e s) =
           dialogs s @ [(''Recording Error'', ''Error stopping recording: '' @ fmt_exc (fmt e) ex)] \<and>
         timer_label (stop_recording e s) = timer_label s"
    and "stream_stop_error e = None \<Longrightarrow> stream_close_error e = Some ex \<Longrightarrow>
         dialogs (stop_recording e s) =
           dialogs s @ [(''Recording Error'', ''Error stopping recording: '' @ fmt_exc (fmt e) ex)] \<and>
         timer_label (stop_recording e s) = timer_label s"
  using assms
  by (auto simp: stop_recording_def stop_recording_body_def do_call_def showerror_def
        analysis_display_def Let_def split: option.splits)

text \<open>The analysis block leaves the recording variables alone, whether it completes or
  raises; it completes for every duration but the underflowing ones.\<close>

lemma analyse_transcript_recording:
  "case analyse_transcript e t d s of
     Inl (ex, s') \<Rightarrow>
       recording_stream s' = recording_stream s \<and>
       recording_start_time s' = recording_start_time s
   | Inr s' \<Rightarrow>
       recording_stream s' = recording_stream s \<and>
       recording_start_time s' = recording_start_time s"
  by (simp add: analyse_transcript_def check_grammar_def check_matches_eq compute_metrics_eq
        clear_inline_errors_eq do_call_def Let_def split: sum.splits)

lemma transcribe_audio_recording:
  "recording_stream (snd (transcribe_audio e p s)) = recording_stream s \<and>
   recording_start_time (snd (transcribe_audio e p s)) = recording_start_time s"
  by (simp add: transcribe_audio_def do_call_def showerror_def Let_def split: sum.splits)

lemma process_file_recording:
  "case process_file e s of
     Inl (ex, s') \<Rightarrow>
       recording_stream s' = recording_stream s \<and>
       recording_start_time s' = recording_start_time s
   | Inr s' \<Rightarrow>
       recording_stream s' = recording_stream s \<and>
       recording_start_time s' = recording_start_time s"
proof (cases "askopenfilename e = []")
  case True
  then show ?thesis by (simp add: process_file_def)
next
  case False
  obtain t s1 where tr: "transcribe_audio e (askopenfilename e) s = (t, s1)"
    by (cases "transcribe_audio e (askopenfilename e) s")
  with transcribe_audio_recording [of e "askopenfilename e" s]
  have s1: "recording_stream s1 = recording_stream s"
    "recording_start_time s1 = recording_start_time s"
    by simp_all
  let ?d = "case sf_info_duration e (askopenfilename e) of Inr d \<Rightarrow> d | Inl x \<Rightarrow> int_to_float 0"
  from analyse_transcript_recording
         [where e = e and t = t and d = ?d and s = "do_call (SfInfo (askopenfilename e)) s1"]
       s1 False tr
  show ?thesis
    by (auto simp: process_file_def do_call_def Let_def split: sum.splits)
qed

lemma stop_recording_start_time:
  "recording_start_time (stop_recording e s) = recording_start_time s"
proof -
  have "recording_start_time
          (case (case analyse_transcript e t d s0 of
                   Inl x \<Rightarrow> Inl x
                 | Inr s8 \<Rightarrow> Inr (do_call c s8)) of
             Inr s' \<Rightarrow> s'
           | Inl (ex, s') \<Rightarrow> showerror title (msg ex) s') = recording_start_time s0"
    for t d s0 c title msg
    using analyse_transcript_recording [where e = e and t = t and d = d and s = s0]
    by (auto simp: do_call_def showerror_def split: sum.splits)
  note pipeline = this
  have tr: "recording_start_time s7 = recording_start_time s6"
    if "transcribe_audio e p s6 = (t, s7)" for p s6 t s7
    using transcribe_audio_recording [of e p s6] that by simp
  show ?thesis
    by (auto simp: stop_recording_def stop_recording_body_def do_call_def showerror_def
          pipeline tr Let_def split: option.splits prod.splits)
qed

text \<open>In every reachable state an active stream has its start time: the subtraction
  in \<^verbatim>\<open>stop_recording\<close> is defined.\<close>

lemma reachable_start_time:
  "reachable s \<Longrightarrow> recording_stream s = None \<or> recording_start_time s \<noteq> None"
proof (induction rule: reachable.induct)
  case initial
  show ?case by (simp add: initial_state_def)
next
  case (start s e)
  show ?case by (simp add: start_recording_start_time)
next
  case (stop s e)
  then show ?case
    by (auto simp: stop_recording_start_time stop_recording_not_started)
next
  case (chunk s indata)
  then show ?case by (simp add: audio_callback_def)
next
  case (tick s e)
  then show ?case
    by (auto simp: update_timer_def do_call_def Let_def split: option.splits pyfloat.splits)
next
  case (from_file s e s')
  with process_file_recording [where e = e and s = s] show ?case by auto
next
  case (from_file_raised s e ex s')
  with process_file_recording [where e = e and s = s] show ?case by auto
next
  case (correction s s')
  then show ?case by simp
qed

text \<open>
  Claim C8, as written, has no error dialog whenever stop-recording finds an active stream
  with no buffered chunk. After a recording was started and no chunk arrived, a stream
  whose \<^verbatim>\<open>stop()\<close> raises makes stop-recording show the \<open>Recording Error\<close> dialog; the
  timer label keeps the running time and shows no status message.
\<close>

theorem stop_recording_without_audio_counterexample:
  "reachable (start_recording example_env initial_state) \<and>
   recording_stream (start_recording example_env initial_state) = Some 1 \<and>
   recorded_frames (start_recording example_env initial_state) = [] \<and>
   dialogs (start_recording example_env initial_state) = [] \<and>
   timer_label (start_recording example_env initial_state) = ''Recording Time: n sec'' \<and>
   dialogs (stop_recording (example_env\<lparr>stream_stop_error := Some (ExternalError ''device'')\<rparr>)
              (start_recording example_env initial_state)) =
     [(''Recording Error'', ''Error stopping recording: exception'')] \<and>
   timer_label (stop_recording (example_env\<lparr>stream_stop_error := Some (ExternalError ''device'')\<rparr>)
                 (start_recording example_env initial_state)) = ''Recording Time: n sec''"
proof -
  let ?s = "start_recording example_env initial_state"
  let ?e = "example_env\<lparr>stream_stop_error := Some (ExternalError ''device'')\<rparr>"
  have started: "recording_stream ?s = Some 1" "recorded_frames ?s = []" "dialogs ?s = []"
    "timer_label ?s = ''Recording Time: n sec''"
    by (simp_all add: start_recording_def update_timer_def float_sub_same do_call_def
          example_env_def initial_state_def Let_def)
  have e: "stream_stop_error ?e = Some (ExternalError ''device'')"
    "fmt_exc (fmt ?e) (ExternalError ''device'') = ''exception''"
    by (simp_all add: example_env_def)
  have r: "reachable ?s"
    by (intro reachable.start reachable.initial)
  from stop_recording_no_frames(4) [OF started(1,2) e(1)] started e r
  show ?thesis by simp
qed

text \<open>
  Claim C8, amended: when stop-recording is invoked, in a state the program can reach,
  while no stream is active, or while a stream is active and no audio chunk was buffered,
  the only calls made are those that end the recording (stopping and closing the stream,
  cancelling the timer): no file is written and no step of the pipeline runs, and the
  analysis widgets and highlights are unchanged. If no stream is active, or the stream
  stops and closes without raising, no error dialog is shown and the timer label holds
  the status message of the case. If stopping or closing the stream raises, the failure
  is shown in the \<open>Recording Error\<close> dialog and the timer label is left as it was.
\<close>

theorem stop_recording_without_audio:
  "reachable s \<Longrightarrow> recording_stream s = None \<or> recorded_frames s = [] \<Longrightarrow>
   (\<exists>cs. calls (stop_recording e s) = calls s @ cs \<and> list_all ends_recording cs) \<and>
   analysis_display (stop_recording e s) = analysis_display s \<and>
   (recording_stream s = None \<or> stream_stop_error e = None \<and> stream_close_error e = None
    \<longrightarrow> dialogs (stop_recording e s) = dialogs s \<and>
        recording_stream (stop_recording e s) = None \<and>
        timer_label (stop_recording e s) =
          (if recording_stream s = None then ''Recording was not started.''
           else ''No audio data recorded.'')) \<and>
   (\<forall>h ex. recording_stream s = Some h \<and>
            (stream_stop_error e = Some ex \<or>
             stream_stop_error e = None \<and> stream_close_error e = Some ex)
    \<longrightarrow> dialogs (stop_recording e s) =
          dialogs s @ [(''Recording Error'', ''Error stopping recording: '' @ fmt_exc (fmt e) ex)] \<and>
        timer_label (stop_recording e s) = timer_label s)"
proof (cases "recording_stream s")
  case None
  then show ?thesis
    by (simp add: stop_recording_not_started analysis_display_def)
next
  case (Some h)
  assume "reachable s" and "recording_stream s = None \<or> recorded_frames s = []"
  with Some have nf: "recorded_frames s = []" and st: "recording_start_time s \<noteq> None"
    using reachable_start_time [of s] by simp_all
  from stop_recording_no_frames [OF Some nf, of e] Some st show ?thesis
    by auto
qed

theorem stop_recording_without_audio_witness:
  "reachable initial_state \<and>
   recording_stream initial_state = None \<and>
   list_all ends_recording (calls (stop_recording example_env initial_state)) \<and>
   analysis_display (stop_recording example_env initial_state) = analysis_display initial_state \<and>
   dialogs (stop_recording example_env initial_state) = [] \<and>
   timer_label (stop_recording example_env initial_state) = ''Recording was not started.'' \<and>
   reachable (start_recording example_env initial_state) \<and>
   recording_stream (start_recording example_env initial_state) = Some 1 \<and>
   recorded_frames (start_recording example_env initial_state) = [] \<and>
   stream_stop_error example_env = None \<and> stream_close_error example_env = None \<and>
   analysis_display (stop_recording example_env (start_recording example_env initial_state))
     = analysis_display (start_recording example_env initial_state) \<and>
   dialogs (stop_recording example_env (start_recording example_env initial_state)) = [] \<and>
   timer_label (stop_recording example_env (start_recording example_env initial_state))
     = ''No audio data recorded.'' \<and>
   stream_stop_error (example_env\<lparr>stream_close_error := Some (ExternalError ''device'')\<rparr>) = None \<and>
   stream_close_error (example_env\<lparr>stream_close_error := Some (ExternalError ''device'')\<rparr>)
     = Some (ExternalError ''device'') \<and>
   dialogs (stop_recording (example_env\<lparr>stream_close_error := Some (ExternalError ''device'')\<rparr>)
              (start_recording example_env initial_state)) =
     [(''Recording Error'', ''Error stopping recording: exception'')] \<and>
   analysis_display
     (stop_recording (example_env\<lparr>stream_close_error := Some (ExternalError ''device'')\<rparr>)
        (start_recording example_env initial_state))
     = analysis_display (start_recording example_env initial_state)"
proof -
  let ?s = "start_recording example_env initial_state"
  let ?e = "example_env\<lparr>stream_close_error := Some (ExternalError ''device'')\<rparr>"
  have idle: "recording_stream initial_state = None" "dialogs initial_state = []"
    "calls initial_state = []"
    by (simp_all add: initial_state_def)
  have started: "recording_stream ?s = Some 1" "recorded_frames ?s = []" "dialogs ?s = []"
    by (simp_all add: start_recording_def update_timer_def float_sub_same do_call_def
          example_env_def initial_state_def Let_def)
  have quiet: "stream_stop_error example_env = None" "stream_close_error example_env = None"
    "stream_stop_error ?e = None" "stream_close_error ?e = Some (ExternalError ''device'')"
    "fmt_exc (fmt ?e) (ExternalError ''device'') = ''exception''"
    by (simp_all add: example_env_def)
  have r0: "reachable initial_state"
    by (rule reachable.initial)
  have r1: "reachable ?s"
    by (rule reachable.start [OF r0])
  from stop_recording_without_audio [OF r0, of example_env]
       stop_recording_without_audio [OF r1, of example_env]
       stop_recording_without_audio [OF r1, of ?e]
       idle started quiet r0 r1
  show ?thesis by auto
qed

subsection \<open>A failed transcription\<close>

lemma round_to_double_not_NaN: "round_to_double x \<noteq> NaN"
  by (simp add: round_to_double_def Let_def)

lemma truediv_zero_dividend:
  "b \<noteq> Finite 0 \<Longrightarrow> b \<noteq> NaN \<Longrightarrow> truediv (Finite 0) b = Inr (Finite 0)"
  by (cases b) (simp_all add: round_to_double_def)

text \<open>No words give a rate of zero, for every duration but the underflowing ones.\<close>

lemma words_per_minute_no_words:
  assumes "\<not> underflowing_duration d"
  shows "words_per_minute 0 d = Inr (Finite 0)"
proof (cases "float_less (Finite 0) d")
  case False
  then show ?thesis by (rule words_per_minute_guard)
next
  case True
  from minutes_nonzero [OF True assms] obtain x
    where x: "truediv d (Finite 60) = Inr x" "x \<noteq> Finite 0"
    by blast
  have "x \<noteq> NaN"
    using True x(1) by (cases d) (auto simp: round_to_double_not_NaN split: if_splits)
  with x(2) have "truediv (Finite 0) x = Inr (Finite 0)"
    by (simp add: truediv_zero_dividend)
  moreover have "py_round (Finite 0) 2 = Finite 0"
    by (simp add: py_round_def round_half_even_def round_to_double_def)
  ultimately show ?thesis
    using True x(1) by (simp add: words_per_minute_def int_to_float_small)
qed

lemma compute_metrics_empty:
  assumes "\<not> underflowing_duration d"
  shows "compute_metrics [] d eb sc =
     Inr \<lparr>score = sc, word_count = 0, wpm = Finite 0, filler_count = 0,
          errors = [(''GRAMMAR'', dict_get eb ''GRAMMAR'' 0), (''TYPOS'', dict_get eb ''TYPOS'' 0),
                    (''PUNCTUATION'', dict_get eb ''PUNCTUATION'' 0)]\<rparr>"
proof -
  have "sum_list (map (str_count (lower [])) FILLER_WORDS) = 0"
    by (simp add: lower_def str_count_def FILLER_WORDS_def)
  moreover have "split [] = []"
    by (simp add: split_def)
  ultimately show ?thesis
    using words_per_minute_no_words [OF assms]
    by (simp add: compute_metrics_eq)
qed

text \<open>
  Claim C10: when the speech-to-text model raises on the chosen file, the transcribe
  operation shows the error dialog and returns the empty string; the file analysis then
  runs to its end on the empty transcript. With no issue found in it, the grammar check
  gives the score 100 with no errors, the metrics have word count 0, words per minute 0
  and score 100, and the widgets show this analysis. The duration the sound-file library
  reports is any but an underflowing one.
\<close>

theorem process_file_failed_transcription:
  "askopenfilename e \<noteq> [] \<and> whisper_transcribe e (askopenfilename e) = Inl ex \<and>
   tool_check e [] = [] \<and>
   \<not> underflowing_duration
        (case sf_info_duration e (askopenfilename e) of Inr d \<Rightarrow> d | Inl x \<Rightarrow> Finite 0) \<Longrightarrow>
   fst (transcribe_audio e (askopenfilename e) s) = [] \<and>
   check_grammar (tool_check e) [] = Inr (100, [], breakdown 0 0 0 0, 0) \<and>
   (\<forall>d. \<not> underflowing_duration d \<longrightarrow>
        compute_metrics [] d (breakdown 0 0 0 0) 100 =
          Inr \<lparr>score = 100, word_count = 0, wpm = Finite 0, filler_count = 0,
               errors = [(''GRAMMAR'', 0), (''TYPOS'', 0), (''PUNCTUATION'', 0)]\<rparr>) \<and>
   (\<exists>s'. process_file e s = Inr s' \<and>
      transcript_text s' = [] \<and>
      dialogs s' = dialogs s @
        [(''Transcription Error'', ''Error during transcription: '' @ fmt_exc (fmt e) ex)] \<and>
      score_label s' =
        ''Grammar Score: '' @ fmt_num (fmt e) 100 @ '' (Total Errors: '' @ fmt_int (fmt e) 0 @ '')'' \<and>
      errors_text s' = ''No grammatical errors found.'' \<and>
      report_text s' =
        generate_report (fmt e)
          \<lparr>score = 100, word_count = 0, wpm = Finite 0, filler_count = 0,
           errors = [(''GRAMMAR'', 0), (''TYPOS'', 0), (''PUNCTUATION'', 0)]\<rparr>
          (advanced_style_analysis (readability e) []) NO_FEEDBACK)"
proof -
  let ?d = "case sf_info_duration e (askopenfilename e) of Inr d \<Rightarrow> d | Inl x \<Rightarrow> Finite 0"
  assume a: "askopenfilename e \<noteq> [] \<and> whisper_transcribe e (askopenfilename e) = Inl ex \<and>
             tool_check e [] = [] \<and> \<not> underflowing_duration ?d"
  have fb: "contextual_language_feedback [] [] = NO_FEEDBACK"
    by (simp add: contextual_language_feedback_def fromkeys_def)
  have cg: "check_grammar (tool_check e) [] = Inr (100, [], breakdown 0 0 0 0, 0)"
    using a by (simp add: check_grammar_def check_matches_Nil)
  have tr: "fst (transcribe_audio e (askopenfilename e) s) = []"
    using a by (simp add: transcribe_audio_def Let_def)
  have cm: "compute_metrics [] d (breakdown 0 0 0 0) 100 =
              Inr \<lparr>score = 100, word_count = 0, wpm = Finite 0, filler_count = 0,
                   errors = [(''GRAMMAR'', 0), (''TYPOS'', 0), (''PUNCTUATION'', 0)]\<rparr>"
    if "\<not> underflowing_duration d" for d
    using that by (simp add: compute_metrics_empty dict_get_def breakdown_def)
  have d: "(case sf_info_duration e (askopenfilename e) of Inr d \<Rightarrow> d | Inl x \<Rightarrow> int_to_float 0) = ?d"
    by (simp add: int_to_float_small split: sum.splits)
  have pf: "\<exists>s'. process_file e s = Inr s' \<and>
      transcript_text s' = [] \<and>
      dialogs s' = dialogs s @
        [(''Transcription Error'', ''Error during transcription: '' @ fmt_exc (fmt e) ex)] \<and>
      score_label s' =
        ''Grammar Score: '' @ fmt_num (fmt e) 100 @ '' (Total Errors: '' @ fmt_int (fmt e) 0 @ '')'' \<and>
      errors_text s' = ''No grammatical errors found.'' \<and>
      report_text s' =
        generate_report (fmt e)
          \<lparr>score = 100, word_count = 0, wpm = Finite 0, filler_count = 0,
           errors = [(''GRAMMAR'', 0), (''TYPOS'', 0), (''PUNCTUATION'', 0)]\<rparr>
          (advanced_style_analysis (readability e) []) NO_FEEDBACK"
    using a cm [of ?d]
    by (simp add: process_file_def transcribe_audio_def analyse_transcript_def cg d fb
          clear_inline_errors_eq do_call_def showerror_def Let_def)
  from tr cg cm pf show ?thesis
    by (intro conjI allI impI)
qed

theorem process_file_failed_transcription_witness:
  "askopenfilename (example_env\<lparr>whisper_transcribe := (\<lambda>path. Inl (ExternalError ''no decoder''))\<rparr>)
     \<noteq> [] \<and>
   whisper_transcribe (example_env\<lparr>whisper_transcribe := (\<lambda>path. Inl (ExternalError ''no decoder''))\<rparr>)
     (askopenfilename (example_env\<lparr>whisper_transcribe := (\<lambda>path. Inl (ExternalError ''no decoder''))\<rparr>))
     = Inl (ExternalError ''no decoder'') \<and>
   tool_check (example_env\<lparr>whisper_transcribe := (\<lambda>path. Inl (ExternalError ''no decoder''))\<rparr>) []
     = [] \<and>
   sf_info_duration (example_env\<lparr>whisper_transcribe := (\<lambda>path. Inl (ExternalError ''no decoder''))\<rparr>)
     ''talk.wav'' = Inr (Finite 10) \<and>
   \<not> underflowing_duration (Finite 10) \<and>
   compute_metrics [] (Finite 10) (breakdown 0 0 0 0) 100 =
     Inr \<lparr>score = 100, word_count = 0, wpm = Finite 0, filler_count = 0,
          errors = [(''GRAMMAR'', 0), (''TYPOS'', 0), (''PUNCTUATION'', 0)]\<rparr> \<and>
   (\<exists>s'. process_file (example_env\<lparr>whisper_transcribe := (\<lambda>path. Inl (ExternalError ''no decoder''))\<rparr>)
            initial_state = Inr s' \<and>
         transcript_text s' = [] \<and>
         dialogs s' = [(''Transcription Error'', ''Error during transcription: exception'')] \<and>
         errors_text s' = ''No grammatical errors found.'')"
proof -
  let ?e = "example_env\<lparr>whisper_transcribe := (\<lambda>path. Inl (ExternalError ''no decoder''))\<rparr>"
  have u: "\<not> underflowing_duration (Finite 10)"
    by (simp add: underflowing_duration_def)
  have sf: "sf_info_duration ?e ''talk.wav'' = Inr (Finite 10)" "askopenfilename ?e = ''talk.wav''"
    by (simp_all add: example_env_def)
  have h: "askopenfilename ?e \<noteq> [] \<and>
           whisper_transcribe ?e (askopenfilename ?e) = Inl (ExternalError ''no decoder'') \<and>
           tool_check ?e [] = [] \<and>
           \<not> underflowing_duration
               (case sf_info_duration ?e (askopenfilename ?e) of Inr d \<Rightarrow> d | Inl x \<Rightarrow> Finite 0)"
    using u by (simp add: example_env_def)
  have f: "fmt_exc (fmt ?e) (ExternalError ''no decoder'') = ''exception''"
    "dialogs initial_state = []"
    by (simp_all add: example_env_def initial_state_def)
  from process_file_failed_transcription [OF h, of initial_state] h f u sf
  show ?thesis by auto
qed

subsection \<open>A complete recording, for contrast\<close>

text \<open>With one buffered chunk the same stop writes the temporary file, runs the whole
  pipeline on it and removes the file.\<close>

lemma stop_recording_with_audio_example:
  "calls (stop_recording example_env
            (audio_callback [0, 1] (start_recording example_env initial_state))) =
     [After 1000, StreamOpen 44100, StreamStart, StreamStop, StreamClose,
      AfterCancel ''after#0'', SfWrite ''temp_recording.wav'' [0, 1] 44100,
      Transcribe ''temp_recording.wav'', ToolCheck ''um so like I went'',
      Readability ''um so like I went'', OsRemove ''temp_recording.wav''] \<and>
   transcript_text (stop_recording example_env
            (audio_callback [0, 1] (start_recording example_env initial_state))) =
     ''um so like I went'' \<and>
   dialogs (stop_recording example_env
            (audio_callback [0, 1] (start_recording example_env initial_state))) = []"
proof -
  have s: "audio_callback [0, 1] (start_recording example_env initial_state) =
        initial_state\<lparr>recording_stream := Some 1, recorded_frames := [[0, 1]],
          recording_start_time := Some 5, timer_job := Some ''after#0'',
          timer_label := ''Recording Time: n sec'',
          calls := [After 1000, StreamOpen 44100, StreamStart]\<rparr>"
    by (simp add: audio_callback_def start_recording_def update_timer_def float_sub_same
          do_call_def example_env_def initial_state_def SAMPLE_RATE_def Let_def)
  have cg: "check_grammar (tool_check example_env) tr = Inr (100, [], breakdown 0 0 0 0, 0)"
    for tr
    by (simp add: check_grammar_def check_matches_Nil example_env_def)
  have ev: "stream_stop_error example_env = None" "stream_close_error example_env = None"
    "sf_write_error example_env = None" "now example_env = 5"
    "whisper_transcribe example_env = (\<lambda>path. Inr ''um so like I went'')"
    by (simp_all add: example_env_def)
  have wpm0: "words_per_minute n (Finite 0) = Inr (Finite 0)" for n
    by (simp add: words_per_minute_guard)
  show ?thesis
    unfolding s
    by (simp add: stop_recording_def stop_recording_body_def transcribe_audio_def
          analyse_transcript_def cg ev compute_metrics_eq float_sub_same wpm0
          clear_inline_errors_eq do_call_def initial_state_def TEMP_AUDIO_FILE_def
          SAMPLE_RATE_def Let_def)
qed

end
